theory Spec2Isabelle
  imports Complex_Main "HOL-Library.Sublist" "HOL-Library.Log_Nat"
begin

section \<open>Strings and numbers of the host language\<close>

text \<open>
  Strings are character lists; a character outside ASCII is written as the bytes of its
  UTF-8 encoding. The placeholder the identity deriver shows while the form is incomplete
  is such a character, the em dash (U+2014).
\<close>

definition EM_DASH :: string where
  "EM_DASH = [char_of (226::nat), char_of (128::nat), char_of (148::nat)]"

text \<open>
  The decimal numeral of a non-negative integer: what the number input of the form holds
  for it, and what the conversion of a number to a string gives for the integers that are
  written without an exponent.
\<close>

definition digit_char :: "nat \<Rightarrow> char" where
  "digit_char d = char_of (48 + d)"

fun toString :: "nat \<Rightarrow> string" where
  "toString n =
     (if n < 10 then [digit_char n] else toString (n div 10) @ [digit_char (n mod 10)])"

declare toString.simps [simp del]

text \<open>
  \<^verbatim>\<open>String.prototype.padStart(targetLength, padString)\<close>: the pad string is repeated and cut
  to the missing length; a string that is long enough, or an empty pad string, leaves the
  receiver as it is.
\<close>

definition padStart :: "string \<Rightarrow> nat \<Rightarrow> string \<Rightarrow> string" where
  "padStart s targetLength padString =
     (if targetLength \<le> length s \<or> padString = [] then s
      else take (targetLength - length s)
             (concat (replicate (targetLength - length s) padString)) @ s)"

section \<open>Identity deriver\<close>

text \<open>
  \<^verbatim>\<open>treeCodePreview\<close> of \<^verbatim>\<open>App.tsx\<close>. The three inputs are the form's string states; an
  empty string is the only falsy string, and \<^verbatim>\<open>toString\<close> of a string is the string itself.
\<close>

definition treeCodePreview :: "string \<Rightarrow> string \<Rightarrow> string \<Rightarrow> string" where
  "treeCodePreview plotCode speciesCode treeNumber =
     (if plotCode = [] \<or> speciesCode = [] \<or> treeNumber = [] then EM_DASH
      else plotCode @ speciesCode @ padStart treeNumber 3 ''0'')"

text \<open>
  The specification's reading of "zero-padded to 3 digits": numbers below 10 get two
  zeros, numbers below 100 get one, larger numbers are written as they are.
\<close>

definition zero_padded_3 :: "nat \<Rightarrow> string" where
  "zero_padded_3 n =
     (if n < 10 then ''00'' @ toString n
      else if n < 100 then ''0'' @ toString n
      else toString n)"

text \<open>The value of a string of decimal digits (used to invert \<open>toString\<close>).\<close>

definition digit_val :: "char \<Rightarrow> nat" where
  "digit_val c = of_char c - 48"

definition decimal_value :: "string \<Rightarrow> nat" where
  "decimal_value s = foldl (\<lambda>acc c. acc * 10 + digit_val c) 0 s"

section \<open>Host functions: search, case conversion and numbers\<close>




text \<open>
  Numbers. The statistics only divide one length by another, multiply by 100 and round, so
  a number is a non-negative double-precision value, \<^verbatim>\<open>Infinity\<close> or \<^verbatim>\<open>NaN\<close>. A finite
  value is the rational number the double stands for.
\<close>

datatype jsnum = Num rat | Infinity | NaN

text \<open>
  Every arithmetic result is rounded to the nearest double, ties to the even significand.
  \<open>exponent x\<close> is the integer \<open>e\<close> with \<open>2^e \<le> |x| < 2^(e + 1)\<close>; a double has 53
  significant bits, and below \<open>2^-1022\<close> the spacing stays \<open>2^-1074\<close> (subnormal numbers).
  A result that rounds to \<open>2^1024\<close> or more is \<^verbatim>\<open>Infinity\<close>.
\<close>

definition round_half_even :: "rat \<Rightarrow> int" where
  "round_half_even x =
     (let f = \<lfloor>x\<rfloor>; r = x - of_int f
      in if r < 1 / 2 then f else if 1 / 2 < r then f + 1 else if even f then f else f + 1)"

definition exponent :: "rat \<Rightarrow> int" where
  "exponent x =
     (let (p, q) = quotient_of \<bar>x\<bar>; k = bitlen p - bitlen q
      in if 2 powi k \<le> \<bar>x\<bar> then k else k - 1)"

definition ulp_exponent :: "rat \<Rightarrow> int" where
  "ulp_exponent x = max (exponent x) (- 1022) - 52"

definition round_to_double :: "rat \<Rightarrow> rat" where
  "round_to_double x =
     (if x = 0 then 0
      else of_int (round_half_even (x / 2 powi ulp_exponent x)) * 2 powi ulp_exponent x)"

definition to_double :: "rat \<Rightarrow> jsnum" where
  "to_double x = (if 2 ^ 1024 \<le> round_to_double x then Infinity else Num (round_to_double x))"

text \<open>\<^verbatim>\<open>a / b\<close> for two lengths (a length is below \<open>2^32\<close> and is a double as it is).\<close>

definition js_div :: "nat \<Rightarrow> nat \<Rightarrow> jsnum" where
  "js_div a b =
     (if b = 0 then (if a = 0 then NaN else Infinity) else to_double (of_nat a / of_nat b))"

text \<open>\<^verbatim>\<open>x * c\<close> for a positive double \<open>c\<close>.\<close>

fun js_mul :: "jsnum \<Rightarrow> rat \<Rightarrow> jsnum" where
  "js_mul (Num x) c = to_double (x * c)"
| "js_mul Infinity c = Infinity"
| "js_mul NaN c = NaN"

text \<open>\<^verbatim>\<open>x || 0\<close>: the falsy numbers are 0 and \<^verbatim>\<open>NaN\<close>.\<close>

fun js_or_0 :: "jsnum \<Rightarrow> jsnum" where
  "js_or_0 (Num x) = (if x = 0 then Num 0 else Num x)"
| "js_or_0 Infinity = Infinity"
| "js_or_0 NaN = Num 0"

text \<open>
  \<^verbatim>\<open>Math.round\<close>: the nearest integer, halves rounded up; the result is computed from the
  exact value of its argument and is a double again.
\<close>

fun Math_round :: "jsnum \<Rightarrow> jsnum" where
  "Math_round (Num x) = Num (of_int \<lfloor>x + 1 / 2\<rfloor>)"
| "Math_round Infinity = Infinity"
| "Math_round NaN = NaN"

text \<open>\<^verbatim>\<open>x + y\<close> and \<^verbatim>\<open>x <= y\<close> on these numbers (every comparison with \<^verbatim>\<open>NaN\<close> is false).\<close>

fun js_add :: "jsnum \<Rightarrow> jsnum \<Rightarrow> jsnum" where
  "js_add (Num x) (Num y) = to_double (x + y)"
| "js_add NaN y = NaN"
| "js_add x NaN = NaN"
| "js_add Infinity y = Infinity"
| "js_add x Infinity = Infinity"

fun js_le :: "jsnum \<Rightarrow> jsnum \<Rightarrow> bool" where
  "js_le (Num x) (Num y) = (x \<le> y)"
| "js_le NaN y = False"
| "js_le x NaN = False"
| "js_le x Infinity = True"
| "js_le Infinity (Num y) = False"

section \<open>Data model\<close>

text \<open>
  The interfaces of the types module. An optional field is an \<open>option\<close>; a field of type
  \<^verbatim>\<open>string | number\<close> is a \<open>str_or_num\<close>. Fields whose names are reserved words here carry a
  suffix (\<open>id_n\<close>, \<open>note_s\<close>).
\<close>

datatype str_or_num = Str string | Number rat

datatype Status = Alive | Dead

datatype SpeciesGroup = GroupA | GroupB

record CoordRecord =
  tree_code :: string
  tag_label :: "string option"
  plot_code :: string
  species_code :: "string option"
  species_group :: "string option"
  species_name :: "string option"
  tree_number :: "str_or_num option"
  row_main :: "string option"
  row_sub :: "string option"
  utm_x :: rat
  utm_y :: rat
  lat :: rat
  lng :: rat
  note_s :: "string option"

record TreeRecord =
  id_n :: rat
  log_id :: "string option"
  tree_code :: string
  tag_label :: string
  plot_code :: string
  species_code :: string
  species_group :: SpeciesGroup
  species_name :: string
  tree_number :: rat
  row_main :: string
  row_sub :: string
  dbh_cm :: "str_or_num option"
  height_m :: "str_or_num option"
  status :: "Status option"
  note_s :: string
  recorder :: string
  survey_date :: string
  timestamp :: string

datatype ViewType = TableView | CoordsView | MapView | StatsView

datatype ToastType = Success | Error | Info

datatype GrowthMode = New | Update

record Toast =
  msg :: string
  toast_type :: ToastType

text \<open>The component state of \<^verbatim>\<open>App\<close>: one field per \<^verbatim>\<open>useState\<close>.\<close>

record AppState =
  records :: "TreeRecord list"
  coordRecords :: "CoordRecord list"
  activeView :: ViewType
  isLoading :: bool
  toast :: "Toast option"
  plotCode :: string
  treeNumber :: string
  speciesCode :: string
  rowMain :: string
  rowSub :: string
  dbhCm :: string
  heightM :: string
  status :: "Status option"
  note_s :: string
  recorder :: string
  surveyDate :: string
  growthMode :: GrowthMode
  selectedUpdateTree :: string
  searchTerm :: string
  plotFilter :: string
  statusFilter :: string

section \<open>External store\<close>

text \<open>
  What one \<^verbatim>\<open>fetch\<close> can do: reject with a message, or resolve to a response with its
  \<^verbatim>\<open>ok\<close> flag, its status and the outcome of \<^verbatim>\<open>res.json()\<close> (a parse error message, or the
  parsed body with its \<^verbatim>\<open>success\<close> flag and \<^verbatim>\<open>data\<close>).
\<close>

record 'a ApiResult =
  success :: bool
  data :: "'a list"

datatype 'a fetch_outcome =
    Rejected string
  | Response bool nat "string + 'a ApiResult"

text \<open>\<^verbatim>\<open>apiGet\<close>: every failure is rethrown as one error (\<open>Inl\<close> with its message).\<close>

fun apiGet :: "'a fetch_outcome \<Rightarrow> string + 'a ApiResult" where
  "apiGet (Rejected m) = Inl (''Could not fetch data: '' @ m)"
| "apiGet (Response ok st body) =
     (if \<not> ok then Inl (''Could not fetch data: '' @ (''HTTP Error: '' @ toString st))
      else case body of
             Inl m \<Rightarrow> Inl (''Could not fetch data: '' @ m)
           | Inr result \<Rightarrow> Inr result)"

text \<open>
  \<^verbatim>\<open>apiPost\<close> sends with \<^verbatim>\<open>no-cors\<close> and never reads the response: it reports success
  unless the request itself is rejected (\<open>Some\<close> message), and it never throws.
\<close>

record PostResult =
  success :: bool
  error :: "string option"

definition apiPost :: "string option \<Rightarrow> PostResult" where
  "apiPost rejected =
     (case rejected of
        None \<Rightarrow> \<lparr>PostResult.success = True, error = None\<rparr>
      | Some m \<Rightarrow> \<lparr>PostResult.success = False, error = Some m\<rparr>)"

section \<open>Actions\<close>

text \<open>
  \<^verbatim>\<open>showToast\<close> sets the toast; the timer that hides it again three seconds later is not
  part of the state model.
\<close>

definition showToast :: "string \<Rightarrow> ToastType \<Rightarrow> AppState \<Rightarrow> AppState" where
  "showToast m t st = st\<lparr>toast := Some \<lparr>msg = m, toast_type = t\<rparr>\<rparr>"

text \<open>
  \<^verbatim>\<open>fetchData\<close>: the two reads in sequence inside one \<^verbatim>\<open>try\<close>; a thrown error skips the
  rest of the block, and the \<^verbatim>\<open>finally\<close> clause runs in every case.
\<close>

definition fetchData ::
  "AppState \<Rightarrow> TreeRecord fetch_outcome \<Rightarrow> CoordRecord fetch_outcome \<Rightarrow> AppState" where
  "fetchData st growthFetch coordFetch =
     (let st1 = st\<lparr>isLoading := True\<rparr>;
          st2 =
            (case apiGet growthFetch of
               Inl m \<Rightarrow> showToast (''Sync failed: '' @ m) Error st1
             | Inr growthRes \<Rightarrow>
                 (let st3 = (if ApiResult.success growthRes
                             then st1\<lparr>records := data growthRes\<rparr> else st1)
                  in case apiGet coordFetch of
                       Inl m \<Rightarrow> showToast (''Sync failed: '' @ m) Error st3
                     | Inr coordRes \<Rightarrow>
                         (let st4 = (if ApiResult.success coordRes
                                     then st3\<lparr>coordRecords := data coordRes\<rparr> else st3)
                          in showToast ''Data synced with cloud'' Success st4)))
      in st2\<lparr>isLoading := False\<rparr>)"

definition clearForm :: "AppState \<Rightarrow> AppState" where
  "clearForm st =
     st\<lparr>plotCode := '''', treeNumber := '''', speciesCode := '''', rowMain := '''',
        rowSub := '''', dbhCm := '''', heightM := '''', AppState.status := None,
        AppState.note_s := ''''\<rparr>"

text \<open>
  \<^verbatim>\<open>handleSubmit\<close>, as far as it changes the state: the validation guard, the write, and on
  a reported success the toast, \<^verbatim>\<open>clearForm\<close> and the reload. The reload is started without
  being awaited; its state updates are applied here in the order they take effect, and the
  loading flag is cleared by both \<^verbatim>\<open>finally\<close> clauses. The request payload is built from the
  form before the form is cleared and does not flow back into the state. Since \<^verbatim>\<open>apiPost\<close>
  never throws, the \<^verbatim>\<open>catch\<close> clause is never entered.
\<close>

definition handleSubmit ::
  "AppState \<Rightarrow> string option \<Rightarrow> TreeRecord fetch_outcome \<Rightarrow> CoordRecord fetch_outcome
     \<Rightarrow> AppState" where
  "handleSubmit st postRejected growthFetch coordFetch =
     (if plotCode st = [] \<or> speciesCode st = [] \<or> treeNumber st = [] \<or> rowMain st = []
         \<or> rowSub st = [] \<or> AppState.recorder st = []
      then showToast ''Please fill all required fields'' Error st
      else
        (let treeCode = treeCodePreview (plotCode st) (speciesCode st) (treeNumber st);
             st1 = st\<lparr>isLoading := True\<rparr>;
             res = apiPost postRejected;
             st2 = (if PostResult.success res
                    then fetchData (clearForm (showToast (''Saved '' @ treeCode) Success st1))
                           growthFetch coordFetch
                    else st1)
         in st2\<lparr>isLoading := False\<rparr>))"

section \<open>Record store: filtering\<close>




text \<open>
  The specification's predicate: a case-insensitive substring is a contiguous part of the
  other string once both are lower-cased by the host.
\<close>

definition ci_substring :: "(string \<Rightarrow> string) \<Rightarrow> string \<Rightarrow> string \<Rightarrow> bool" where
  "ci_substring toLowerCase needle hay = sublist (toLowerCase needle) (toLowerCase hay)"


section \<open>Aggregator\<close>

text \<open>
  The counting objects \<^verbatim>\<open>speciesCounts\<close> and \<^verbatim>\<open>plotCounts\<close> are plain objects: they have
  their own properties, kept in creation order, and they inherit the members of
  \<^verbatim>\<open>Object.prototype\<close>. A property holds a number, or, once a name was first read from the
  prototype, a string: \<open>Joined k n\<close> is the text of the inherited member \<open>k\<close> followed by
  \<open>n\<close> characters \<open>1\<close>.
\<close>

datatype count_value = Count nat | Joined string nat

type_synonym Counts = "(string \<times> count_value) list"

text \<open>The names every plain object inherits in a browser.\<close>

definition Object_prototype_names :: "string list" where
  "Object_prototype_names =
     [''constructor'', ''__defineGetter__'', ''__defineSetter__'', ''hasOwnProperty'',
      ''__lookupGetter__'', ''__lookupSetter__'', ''isPrototypeOf'', ''propertyIsEnumerable'',
      ''toString'', ''valueOf'', ''__proto__'', ''toLocaleString'']"

text \<open>
  \<^verbatim>\<open>(obj[k] || 0) + 1\<close>. An own number is incremented (0 is falsy and gives 1 as well). An
  own string is not empty, hence truthy, and \<open>+ 1\<close> appends a character. A name that is
  not an own property is looked up in the prototype: its members are functions, and for
  \<^verbatim>\<open>__proto__\<close> the prototype object itself, all truthy, and adding 1 to one of them
  concatenates its text and \<open>1\<close>. Any other name reads as \<^verbatim>\<open>undefined\<close>.
\<close>

definition incremented :: "Counts \<Rightarrow> string \<Rightarrow> count_value" where
  "incremented obj k =
     (case map_of obj k of
        Some (Count c) \<Rightarrow> Count (c + 1)
      | Some (Joined s n) \<Rightarrow> Joined s (n + 1)
      | None \<Rightarrow> if k \<in> set Object_prototype_names then Joined k 1 else Count 1)"

text \<open>
  \<^verbatim>\<open>obj[k] = v\<close>: an existing own property keeps its place, a new one is created after
  the others. Assigning to \<^verbatim>\<open>__proto__\<close> calls the inherited setter, which ignores a value
  that is not an object: no property is created.
\<close>

fun put_own :: "string \<Rightarrow> count_value \<Rightarrow> Counts \<Rightarrow> Counts" where
  "put_own k v [] = [(k, v)]"
| "put_own k v ((k', v') # obj) =
     (if k' = k then (k, v) # obj else (k', v') # put_own k v obj)"

definition set_property :: "string \<Rightarrow> count_value \<Rightarrow> Counts \<Rightarrow> Counts" where
  "set_property k v obj = (if k = ''__proto__'' then obj else put_own k v obj)"

text \<open>The body of each \<^verbatim>\<open>records.forEach\<close>: \<^verbatim>\<open>obj[k] = (obj[k] || 0) + 1\<close>.\<close>

definition count_key :: "Counts \<Rightarrow> string \<Rightarrow> Counts" where
  "count_key obj k = set_property k (incremented obj k) obj"

text \<open>
  \<^verbatim>\<open>Object.keys\<close>: the own property names that are array indices (the canonical decimal
  strings of the integers below \<open>2^32 - 1\<close>) come first, in ascending numeric order; the
  other names follow in creation order.
\<close>

definition is_array_index :: "string \<Rightarrow> bool" where
  "is_array_index k = (toString (decimal_value k) = k \<and> decimal_value k < 4294967295)"

definition Object_keys :: "Counts \<Rightarrow> string list" where
  "Object_keys obj =
     sort_key decimal_value (filter is_array_index (map fst obj))
     @ filter (\<lambda>k. \<not> is_array_index k) (map fst obj)"

text \<open>The chart rows \<^verbatim>\<open>{ name, value }\<close>.\<close>

record ChartEntry =
  entry_name :: string
  entry_value :: count_value

text \<open>
  \<^verbatim>\<open>Object.keys(counts).forEach(name => data.push({ name, value: counts[name] }))\<close>. Every
  name read here is an own property of the object, so the second case does not occur.
\<close>

definition own_value :: "Counts \<Rightarrow> string \<Rightarrow> count_value" where
  "own_value obj k = (case map_of obj k of Some v \<Rightarrow> v | None \<Rightarrow> Count 0)"

definition entries_of :: "Counts \<Rightarrow> ChartEntry list" where
  "entries_of obj =
     map (\<lambda>k. \<lparr>entry_name = k, entry_value = own_value obj k\<rparr>) (Object_keys obj)"

text \<open>
  \<^verbatim>\<open>data.sort((a, b) => b.value - a.value)\<close>. On numbers the comparator puts the larger
  value first, and \<^verbatim>\<open>Array.prototype.sort\<close> is stable. With a string value the difference
  is \<^verbatim>\<open>NaN\<close>; a comparator that returns \<^verbatim>\<open>NaN\<close> is not a consistent comparison function,
  and the language then leaves the order to the implementation.

  An array is therefore either known element by element (\<open>InOrder\<close>), or it is the first
  \<open>n\<close> elements of an arrangement of a list that the implementation chooses
  (\<open>SomeOrder\<close>).
\<close>

datatype 'a arranged = InOrder "'a list" | SomeOrder nat "'a list"

fun array_length :: "'a arranged \<Rightarrow> nat" where
  "array_length (InOrder xs) = length xs"
| "array_length (SomeOrder n xs) = n"

fun is_number :: "count_value \<Rightarrow> bool" where
  "is_number (Count n) = True"
| "is_number (Joined s n) = False"

fun count_of :: "count_value \<Rightarrow> nat" where
  "count_of (Count n) = n"
| "count_of (Joined s n) = 0"

definition sort_desc :: "ChartEntry list \<Rightarrow> ChartEntry arranged" where
  "sort_desc xs =
     (if list_all (\<lambda>e. is_number (entry_value e)) xs
      then InOrder (sort_key (\<lambda>e. - int (count_of (entry_value e))) xs)
      else SomeOrder (length xs) xs)"

text \<open>\<^verbatim>\<open>slice(0, 10)\<close>.\<close>

fun slice_0_10 :: "'a arranged \<Rightarrow> 'a arranged" where
  "slice_0_10 (InOrder xs) = InOrder (take 10 xs)"
| "slice_0_10 (SomeOrder n xs) = SomeOrder (min 10 n) xs"

record Stats =
  total :: nat
  alive :: nat
  dead :: nat
  alivePct :: jsnum
  deadPct :: jsnum
  speciesData :: "ChartEntry arranged"
  plotData :: "ChartEntry arranged"

definition stats :: "AppState \<Rightarrow> Stats" where
  "stats st =
     (let total = length (records st);
          alive = length (filter (\<lambda>r. TreeRecord.status r = Some Alive) (records st));
          dead = length (filter (\<lambda>r. TreeRecord.status r = Some Dead) (records st));
          speciesCounts = foldl (\<lambda>obj r. count_key obj (TreeRecord.species_name r)) [] (records st);
          speciesData = entries_of speciesCounts;
          plotCounts = foldl (\<lambda>obj r. count_key obj (TreeRecord.plot_code r)) [] (records st);
          plotData = entries_of plotCounts
      in \<lparr>total = total,
          alive = alive,
          dead = dead,
          alivePct = (if total \<noteq> 0 then Math_round (js_mul (js_div alive total) 100) else Num 0),
          deadPct = (if total \<noteq> 0 then Math_round (js_mul (js_div dead total) 100) else Num 0),
          speciesData = slice_0_10 (sort_desc speciesData),
          plotData = sort_desc plotData\<rparr>)"

text \<open>
  The coverage figure of the statistics view:
  \<^verbatim>\<open>Math.round((coordRecords.length/stats.total)*100 || 0)\<close>.
\<close>

definition coordinateCoveragePct :: "AppState \<Rightarrow> jsnum" where
  "coordinateCoveragePct st =
     Math_round (js_or_0 (js_mul (js_div (length (coordRecords st)) (total (stats st))) 100))"

text \<open>The distinct elements of a sequence, in the order of their first occurrence.\<close>

definition encounter_order :: "'a list \<Rightarrow> 'a list" where
  "encounter_order xs = rev (remdups (rev xs))"

section \<open>Join and map markers\<close>

text \<open>
  The body of \<^verbatim>\<open>coordRecords.map\<close> in the map view, for one spatial record \<open>r\<close>:
  \<^verbatim>\<open>find\<close> gives the first growth record with the same tree code or \<^verbatim>\<open>undefined\<close>, and
  \<^verbatim>\<open>growthRec?.status\<close> of \<^verbatim>\<open>undefined\<close> is \<^verbatim>\<open>undefined\<close>.
\<close>

definition growthRec :: "AppState \<Rightarrow> CoordRecord \<Rightarrow> TreeRecord option" where
  "growthRec st r = find (\<lambda>g. TreeRecord.tree_code g = CoordRecord.tree_code r) (records st)"

definition isAlive :: "AppState \<Rightarrow> CoordRecord \<Rightarrow> bool" where
  "isAlive st r =
     (case growthRec st r of None \<Rightarrow> False | Some g \<Rightarrow> TreeRecord.status g = Some Alive)"

definition isDead :: "AppState \<Rightarrow> CoordRecord \<Rightarrow> bool" where
  "isDead st r =
     (case growthRec st r of None \<Rightarrow> False | Some g \<Rightarrow> TreeRecord.status g = Some Dead)"

definition color :: "AppState \<Rightarrow> CoordRecord \<Rightarrow> string" where
  "color st r = (if isAlive st r then ''#22c55e'' else if isDead st r then ''#ef4444'' else ''#9ca3af'')"

text \<open>
  The status line of the popup: its colour class and its label (two Thai words, "survived"
  and "dead", or the em dash).
\<close>

definition THAI_ALIVE :: string where
  "THAI_ALIVE = map char_of [224, 184, 163, 224, 184, 173, 224, 184, 148 :: nat]"

definition THAI_DEAD :: string where
  "THAI_DEAD = map char_of [224, 184, 149, 224, 184, 178, 224, 184, 162 :: nat]"

definition status_class :: "AppState \<Rightarrow> CoordRecord \<Rightarrow> string" where
  "status_class st r =
     (if isAlive st r then ''text-green-600'' else if isDead st r then ''text-red-600''
      else ''text-gray-400'')"

definition status_label :: "AppState \<Rightarrow> CoordRecord \<Rightarrow> string" where
  "status_label st r = (if isAlive st r then THAI_ALIVE else if isDead st r then THAI_DEAD else EM_DASH)"

section \<open>Sample data\<close>

text \<open>
  A growth record, a spatial record and a state used to run the model on concrete inputs.
\<close>

definition sample_tree :: TreeRecord where
  "sample_tree =
     \<lparr>id_n = 1, log_id = None, TreeRecord.tree_code = ''P1A02014'',
      TreeRecord.tag_label = ''14 P1 02 (03-A) Teak'', TreeRecord.plot_code = ''P1'',
      TreeRecord.species_code = ''A02'', TreeRecord.species_group = GroupA,
      TreeRecord.species_name = ''Teak'', TreeRecord.tree_number = 14,
      TreeRecord.row_main = ''02'', TreeRecord.row_sub = ''03-A'', dbh_cm = None,
      height_m = None, TreeRecord.status = None, TreeRecord.note_s = '''',
      TreeRecord.recorder = ''field team'', survey_date = ''2024-05-01'', timestamp = ''''\<rparr>"

definition sample_coord :: CoordRecord where
  "sample_coord =
     \<lparr>CoordRecord.tree_code = ''P1A02014'', CoordRecord.tag_label = None,
      CoordRecord.plot_code = ''P1'', CoordRecord.species_code = None,
      CoordRecord.species_group = None, CoordRecord.species_name = None,
      CoordRecord.tree_number = None, CoordRecord.row_main = None, CoordRecord.row_sub = None,
      utm_x = 434500, utm_y = 2044600, lat = 18.49, lng = 98.38, CoordRecord.note_s = None\<rparr>"

definition initial_state :: AppState where
  "initial_state =
     \<lparr>records = [], coordRecords = [], activeView = TableView, isLoading = False, toast = None,
      plotCode = '''', treeNumber = '''', speciesCode = '''', rowMain = '''', rowSub = '''',
      dbhCm = '''', heightM = '''', AppState.status = None, AppState.note_s = '''',
      AppState.recorder = '''', surveyDate = ''2024-05-01'', growthMode = New,
      selectedUpdateTree = '''', searchTerm = '''', plotFilter = '''', statusFilter = ''''\<rparr>"

definition sample_pine :: TreeRecord where
  "sample_pine =
     sample_tree\<lparr>TreeRecord.tree_code := ''P2B01003'', TreeRecord.plot_code := ''P2'',
       TreeRecord.species_code := ''B01'', TreeRecord.species_group := GroupB,
       TreeRecord.species_name := ''Pine'', TreeRecord.tree_number := 3,
       TreeRecord.status := Some Dead\<rparr>"

definition sample_history :: "TreeRecord list" where
  "sample_history =
     [sample_pine,
      sample_tree\<lparr>TreeRecord.status := Some Alive\<rparr>,
      sample_tree\<lparr>TreeRecord.status := Some Dead, survey_date := ''2025-05-01''\<rparr>]"

text \<open>One surviving and seven dead trees.\<close>

definition sample_eight :: "TreeRecord list" where
  "sample_eight =
     sample_tree\<lparr>TreeRecord.status := Some Alive\<rparr>
       # replicate 7 (sample_tree\<lparr>TreeRecord.status := Some Dead\<rparr>)"

text \<open>Twenty-three surviving trees among forty records.\<close>

definition sample_forty :: "TreeRecord list" where
  "sample_forty =
     replicate 23 (sample_tree\<lparr>TreeRecord.status := Some Alive\<rparr>) @ replicate 17 sample_tree"

text \<open>A state whose growth records carry the given species names, in that order.\<close>

definition with_species :: "string list \<Rightarrow> AppState" where
  "with_species names =
     initial_state\<lparr>records := map (\<lambda>n. sample_tree\<lparr>TreeRecord.species_name := n\<rparr>) names\<rparr>"

text \<open>A form that is ready to be submitted, with a search and a plot filter set.\<close>

definition filled_form :: AppState where
  "filled_form =
     initial_state\<lparr>records := [sample_tree], plotCode := ''P1'', treeNumber := ''15'',
       speciesCode := ''A02'', rowMain := ''2'', rowSub := ''03-A'', dbhCm := ''12.5'',
       AppState.status := Some Alive, AppState.note_s := ''ok'',
       AppState.recorder := ''field team'', searchTerm := ''teak'', plotFilter := ''P1''\<rparr>"

section \<open>Properties named by the specification\<close>

text \<open>
  The form-clearing contract: the nine entry fields are back at their initial values, and
  the recorder, the survey date and the three filters are what they were before.
\<close>

definition form_cleared :: "AppState \<Rightarrow> AppState \<Rightarrow> bool" where
  "form_cleared before after =
     (plotCode after = [] \<and> treeNumber after = [] \<and> speciesCode after = []
      \<and> rowMain after = [] \<and> rowSub after = [] \<and> dbhCm after = [] \<and> heightM after = []
      \<and> AppState.status after = None \<and> AppState.note_s after = []
      \<and> AppState.recorder after = AppState.recorder before
      \<and> surveyDate after = surveyDate before
      \<and> searchTerm after = searchTerm before
      \<and> plotFilter after = plotFilter before
      \<and> statusFilter after = statusFilter before)"

text \<open>The required fields of a submission are all present.\<close>

definition required_filled :: "AppState \<Rightarrow> bool" where
  "required_filled st =
     (plotCode st \<noteq> [] \<and> speciesCode st \<noteq> [] \<and> treeNumber st \<noteq> [] \<and> rowMain st \<noteq> []
      \<and> rowSub st \<noteq> [] \<and> AppState.recorder st \<noteq> [])"

text \<open>
  A collection is successfully re-fetched by a reload when its request is made, does not
  throw, and answers with \<^verbatim>\<open>success: true\<close>. The spatial records are only requested after
  the growth records' request has returned.
\<close>

definition refetched_growth :: "TreeRecord fetch_outcome \<Rightarrow> bool" where
  "refetched_growth growthFetch =
     (case apiGet growthFetch of Inl m \<Rightarrow> False | Inr res \<Rightarrow> ApiResult.success res)"

definition refetched_coord :: "TreeRecord fetch_outcome \<Rightarrow> CoordRecord fetch_outcome \<Rightarrow> bool" where
  "refetched_coord growthFetch coordFetch =
     (case apiGet growthFetch of
        Inl m \<Rightarrow> False
      | Inr res \<Rightarrow> (case apiGet coordFetch of Inl m \<Rightarrow> False | Inr res' \<Rightarrow> ApiResult.success res'))"

section \<open>Facts about decimal strings and padding\<close>

lemma digit_val_digit_char: "d < 10 \<Longrightarrow> digit_val (digit_char d) = d"
  by (simp add: digit_val_def digit_char_def)

lemma decimal_value_snoc:
  "decimal_value (s @ [c]) = decimal_value s * 10 + digit_val c"
  by (simp add: decimal_value_def)

lemma decimal_value_toString: "decimal_value (toString n) = n"
proof (induction n rule: toString.induct)
  case (1 n)
  show ?case
  proof (cases "n < 10")
    case True
    then show ?thesis
      by (simp add: toString.simps [of n] decimal_value_def digit_val_digit_char)
  next
    case False
    then have "decimal_value (toString (n div 10)) = n div 10"
      using "1.IH" by simp
    with False show ?thesis
      by (simp add: toString.simps [of n] decimal_value_snoc digit_val_digit_char)
  qed
qed

lemma decimal_value_zeros:
  "decimal_value (replicate k (CHR ''0'') @ s) = decimal_value s"
proof -
  have "foldl (\<lambda>acc c. acc * 10 + digit_val c) 0 (replicate k (CHR ''0'')) = 0"
    by (induction k) (simp_all add: digit_val_def)
  then show ?thesis
    by (simp add: decimal_value_def)
qed

lemma padStart_zero:
  "padStart s n ''0'' = replicate (n - length s) (CHR ''0'') @ s"
proof -
  have "concat (replicate k ''0'') = replicate k (CHR ''0'')" for k
    by (induction k) simp_all
  then show ?thesis
    by (simp add: padStart_def)
qed

lemma decimal_value_padStart:
  "decimal_value (padStart (toString n) k ''0'') = n"
  by (simp add: padStart_zero decimal_value_zeros decimal_value_toString)

lemma toString_not_Nil: "toString n \<noteq> []"
  by (subst toString.simps) simp

lemma length_toString_1: "n < 10 \<Longrightarrow> length (toString n) = 1"
  by (subst toString.simps) simp

lemma length_toString_2: "10 \<le> n \<Longrightarrow> n < 100 \<Longrightarrow> length (toString n) = 2"
  by (subst toString.simps) (simp add: length_toString_1)

lemma length_toString_ge_2: "10 \<le> n \<Longrightarrow> 2 \<le> length (toString n)"
proof -
  assume "10 \<le> n"
  moreover have "1 \<le> length (toString (n div 10))"
    using toString_not_Nil [of "n div 10"] by (cases "toString (n div 10)") simp_all
  ultimately show ?thesis
    by (subst toString.simps) simp
qed

lemma length_toString_ge_3: "100 \<le> n \<Longrightarrow> 3 \<le> length (toString n)"
proof -
  assume h: "100 \<le> n"
  then have "2 \<le> length (toString (n div 10))"
    by (intro length_toString_ge_2) simp
  with h show ?thesis
    by (subst toString.simps) simp
qed

lemma padStart_toString:
  "padStart (toString n) 3 ''0'' = zero_padded_3 n"
proof -
  consider "n < 10" | "10 \<le> n" "n < 100" | "100 \<le> n"
    by linarith
  then show ?thesis
  proof cases
    case 1
    then show ?thesis
      by (simp add: padStart_zero zero_padded_3_def length_toString_1 numeral_3_eq_3)
  next
    case 2
    then show ?thesis
      by (simp add: padStart_zero zero_padded_3_def length_toString_2 numeral_3_eq_3)
  next
    case 3
    then show ?thesis
      using length_toString_ge_3 [of n]
      by (simp add: padStart_zero zero_padded_3_def)
  qed
qed

lemma toString_digits: "c \<in> set (toString n) \<Longrightarrow> 48 \<le> (of_char c :: nat) \<and> (of_char c :: nat) \<le> 57"
proof (induction n rule: toString.induct)
  case (1 n)
  show ?case
  proof (cases "n < 10")
    case True
    with "1.prems" show ?thesis
      by (simp add: toString.simps [of n] digit_char_def)
  next
    case False
    with "1.prems" have "c \<in> set (toString (n div 10)) \<or> c = digit_char (n mod 10)"
      by (auto simp: toString.simps [of n])
    then show ?thesis
    proof
      assume "c \<in> set (toString (n div 10))"
      with False "1.IH" show ?thesis by simp
    next
      assume "c = digit_char (n mod 10)"
      moreover have "n mod 10 < 10" by simp
      ultimately show ?thesis
        by (simp add: digit_char_def)
    qed
  qed
qed

lemma not_index_if_not_digit:
  "c \<in> set k \<Longrightarrow> (of_char c :: nat) < 48 \<or> 57 < (of_char c :: nat) \<Longrightarrow> \<not> is_array_index k"
  using toString_digits [of c "decimal_value k"]
  by (auto simp: is_array_index_def)

lemma digit_chars:
  "digit_char 0 = CHR ''0''" "digit_char 1 = CHR ''1''" "digit_char 2 = CHR ''2''"
  "digit_char 3 = CHR ''3''" "digit_char 4 = CHR ''4''" "digit_char 5 = CHR ''5''"
  "digit_char 6 = CHR ''6''" "digit_char 7 = CHR ''7''" "digit_char 8 = CHR ''8''"
  "digit_char 9 = CHR ''9''" "digit_char (Suc 0) = CHR ''1''"
  by (simp_all add: digit_char_def char_of_eq_iff)

section \<open>Tree codes\<close>

text \<open>
  Claim C4: for non-empty plot and species codes and a tree number of at least 1 (as the
  number input renders it), the tree code is the plot code, then the species code, then
  the tree number zero-padded to 3 digits.
\<close>

theorem treeCodePreview_concat:
  assumes "p \<noteq> []" and "s \<noteq> []" and "1 \<le> n"
  shows "treeCodePreview p s (toString n)
           = p @ s @ zero_padded_3 n"
  using assms by (simp add: treeCodePreview_def toString_not_Nil padStart_toString)

text \<open>The two examples of the specification, obtained from the theorem.\<close>

theorem treeCodePreview_concat_witness:
  "''PLOT1'' \<noteq> [] \<and> ''A02'' \<noteq> [] \<and> (1::nat) \<le> 14 \<and> (1::nat) \<le> 7
   \<and> treeCodePreview ''PLOT1'' ''A02'' (toString 14) = ''PLOT1A02014''
   \<and> treeCodePreview ''PLOT1'' ''A02'' (toString 7) = ''PLOT1A02007''"
proof -
  have z14: "zero_padded_3 14 = ''014''" by code_simp
  have z7: "zero_padded_3 7 = ''007''" by code_simp
  have "treeCodePreview ''PLOT1'' ''A02'' (toString 14) = ''PLOT1'' @ ''A02'' @ zero_padded_3 14"
    by (rule treeCodePreview_concat) simp_all
  moreover have "treeCodePreview ''PLOT1'' ''A02'' (toString 7) = ''PLOT1'' @ ''A02'' @ zero_padded_3 7"
    by (rule treeCodePreview_concat) simp_all
  ultimately show ?thesis
    by (simp add: z14 z7)
qed

text \<open>
  Claim C9: when the plot code, the species code or the tree number is missing (the empty
  string), the deriver returns the em-dash placeholder. The function is total: there is no
  input on which it fails.
\<close>

theorem treeCodePreview_incomplete:
  assumes "p = [] \<or> s = [] \<or> t = []"
  shows "treeCodePreview p s t = EM_DASH"
  using assms by (simp add: treeCodePreview_def)

theorem treeCodePreview_incomplete_witness:
  "(''PLOT1'' = [] \<or> ''A02'' = [] \<or> '''' = [])
   \<and> treeCodePreview ''PLOT1'' ''A02'' '''' = EM_DASH
   \<and> treeCodePreview '''' ''A02'' ''14'' = EM_DASH
   \<and> treeCodePreview ''PLOT1'' '''' ''14'' = EM_DASH"
  using treeCodePreview_incomplete [of "''PLOT1''" "''A02''" "''''"]
    treeCodePreview_incomplete [of "''''" "''A02''" "''14''"]
    treeCodePreview_incomplete [of "''PLOT1''" "''''" "''14''"]
  by simp

text \<open>
  Claim C3, as stated, fails: the codes are concatenated without a separator, so two
  distinct triples of non-empty codes and a tree number of at least 1 can give the same
  tree code.
\<close>

theorem treeCodePreview_collision:
  "treeCodePreview ''P'' ''1A02'' (toString 14) = treeCodePreview ''P1'' ''A02'' (toString 14)
   \<and> (''P'', ''1A02'', 14::nat) \<noteq> (''P1'', ''A02'', 14)
   \<and> ''P'' \<noteq> [] \<and> ''1A02'' \<noteq> [] \<and> ''P1'' \<noteq> [] \<and> ''A02'' \<noteq> [] \<and> (1::nat) \<le> 14"
  by (simp add: treeCodePreview_def toString_not_Nil)

text \<open>
  Claim C3, amended: over triples whose plot codes have one common length and whose
  species codes have one common length (fixed-width catalogs), with non-empty codes and
  the tree number a non-negative integer in decimal, equal tree codes come from equal
  triples.
\<close>

theorem treeCodePreview_injective_fixed_width:
  assumes "p1 \<noteq> []" and "s1 \<noteq> []"
    and "p2 \<noteq> []" and "s2 \<noteq> []"
    and "length p1 = length p2"
    and "length s1 = length s2"
    and "treeCodePreview p1 s1 (toString n1)
           = treeCodePreview p2 s2 (toString n2)"
  shows "p1 = p2 \<and> s1 = s2 \<and> n1 = n2"
proof -
  let ?t1 = "padStart (toString n1) 3 ''0''" and ?t2 = "padStart (toString n2) 3 ''0''"
  from assms have eq: "p1 @ s1 @ ?t1 = p2 @ s2 @ ?t2"
    by (simp add: treeCodePreview_def toString_not_Nil)
  with assms(5) have p: "p1 = p2" and rest: "s1 @ ?t1 = s2 @ ?t2"
    by simp_all
  from rest assms(6) have s: "s1 = s2" and t: "?t1 = ?t2"
    by simp_all
  from t have "decimal_value ?t1 = decimal_value ?t2"
    by simp
  then have "n1 = n2"
    by (simp add: decimal_value_padStart)
  with p s show ?thesis
    by simp
qed

theorem treeCodePreview_injective_fixed_width_witness:
  "''P1'' \<noteq> [] \<and> ''A02'' \<noteq> [] \<and> length ''P1'' = length ''P1'' \<and> length ''A02'' = length ''A02''
   \<and> treeCodePreview ''P1'' ''A02'' (toString 14) = treeCodePreview ''P1'' ''A02'' (toString 14)
   \<and> (''P1'' = ''P1'' \<and> ''A02'' = ''A02'' \<and> (14::nat) = 14)"
  using treeCodePreview_injective_fixed_width
          [of "''P1''" "''A02''" "''P1''" "''A02''" 14 14]
  by simp

section \<open>Filtering\<close>











text \<open>
  When lower-casing works character by character, the lower-cased search text is part of
  the lower-cased field exactly when some contiguous part of the field equals the search
  text up to the case of its characters. (The host's conversion works this way except for
  a few context-dependent and multi-character mappings, such as the Greek final sigma; the
  theorem above does not depend on it.)
\<close>

lemma ci_substring_charwise:
  "ci_substring (map f) needle hay \<longleftrightarrow> (\<exists>w. sublist w hay \<and> map f w = map f needle)"
proof
  assume "ci_substring (map f) needle hay"
  then obtain ps ss where "map f hay = ps @ map f needle @ ss"
    unfolding ci_substring_def sublist_def by blast
  then have "\<exists>us vs. hay = us @ vs \<and> ps = map f us \<and> map f needle @ ss = map f vs"
    by (simp only: map_eq_append_conv)
  then obtain us vs where us: "hay = us @ vs" and vs: "map f needle @ ss = map f vs"
    by blast
  from vs have "\<exists>w ss'. vs = w @ ss' \<and> map f needle = map f w \<and> ss = map f ss'"
    by (simp only: append_eq_map_conv)
  then obtain w ss' where "vs = w @ ss'" and "map f needle = map f w"
    by blast
  with us have "hay = us @ w @ ss'" and "map f w = map f needle"
    by simp_all
  then show "\<exists>w. sublist w hay \<and> map f w = map f needle"
    unfolding sublist_def by blast
next
  assume "\<exists>w. sublist w hay \<and> map f w = map f needle"
  then obtain w ps ss where "hay = ps @ w @ ss" and "map f w = map f needle"
    unfolding sublist_def by blast
  then have "map f hay = map f ps @ map f needle @ map f ss"
    by simp
  then show "ci_substring (map f) needle hay"
    unfolding ci_substring_def sublist_def by blast
qed

section \<open>Reloading\<close>

text \<open>
  Claim C8: a reload leaves every collection that was not successfully re-fetched exactly
  as it was, whether its response carried \<^verbatim>\<open>success: false\<close> or a request failed; a
  collection that was re-fetched holds the data of its own response, whatever happened to
  the other one.
\<close>

theorem fetchData_isolation:
  "(\<not> refetched_growth g \<longrightarrow> records (fetchData st g c) = records st)
   \<and> (\<not> refetched_coord g c \<longrightarrow> coordRecords (fetchData st g c) = coordRecords st)
   \<and> (refetched_growth g \<longrightarrow>
        apiGet g = Inr \<lparr>ApiResult.success = True, data = records (fetchData st g c)\<rparr>)
   \<and> (refetched_coord g c \<longrightarrow>
        apiGet c = Inr \<lparr>ApiResult.success = True, data = coordRecords (fetchData st g c)\<rparr>)"
  by (auto simp: refetched_growth_def refetched_coord_def fetchData_def showToast_def Let_def
      split: sum.splits)

text \<open>
  A reload whose first answer is \<^verbatim>\<open>success: false\<close> and whose second request fails keeps
  both collections; a reload with two good answers replaces both.
\<close>

theorem fetchData_isolation_witness:
  "\<not> refetched_growth (Response True 200 (Inr \<lparr>ApiResult.success = False, data = []\<rparr>))
   \<and> \<not> refetched_coord (Response True 200 (Inr \<lparr>ApiResult.success = False, data = []\<rparr>))
         (Rejected ''Failed to fetch'')
   \<and> records (fetchData (initial_state\<lparr>records := sample_history, coordRecords := [sample_coord]\<rparr>)
         (Response True 200 (Inr \<lparr>ApiResult.success = False, data = []\<rparr>))
         (Rejected ''Failed to fetch'')) = sample_history
   \<and> coordRecords (fetchData (initial_state\<lparr>records := sample_history, coordRecords := [sample_coord]\<rparr>)
         (Response True 200 (Inr \<lparr>ApiResult.success = False, data = []\<rparr>))
         (Rejected ''Failed to fetch'')) = [sample_coord]
   \<and> refetched_growth (Response True 200 (Inr \<lparr>ApiResult.success = True, data = [sample_pine]\<rparr>))
   \<and> refetched_coord (Response True 200 (Inr \<lparr>ApiResult.success = True, data = [sample_pine]\<rparr>))
         (Response True 200 (Inr \<lparr>ApiResult.success = True, data = []\<rparr>))
   \<and> records (fetchData (initial_state\<lparr>records := sample_history, coordRecords := [sample_coord]\<rparr>)
         (Response True 200 (Inr \<lparr>ApiResult.success = True, data = [sample_pine]\<rparr>))
         (Response True 200 (Inr \<lparr>ApiResult.success = True, data = []\<rparr>))) = [sample_pine]
   \<and> coordRecords (fetchData (initial_state\<lparr>records := sample_history, coordRecords := [sample_coord]\<rparr>)
         (Response True 200 (Inr \<lparr>ApiResult.success = True, data = [sample_pine]\<rparr>))
         (Response True 200 (Inr \<lparr>ApiResult.success = True, data = []\<rparr>))) = []"
proof -
  let ?st = "initial_state\<lparr>records := sample_history, coordRecords := [sample_coord]\<rparr>"
  let ?g1 = "Response True 200 (Inr \<lparr>ApiResult.success = False, data = []\<rparr>)
               :: TreeRecord fetch_outcome"
  let ?c1 = "Rejected ''Failed to fetch'' :: CoordRecord fetch_outcome"
  let ?g2 = "Response True 200 (Inr \<lparr>ApiResult.success = True, data = [sample_pine]\<rparr>)
               :: TreeRecord fetch_outcome"
  let ?c2 = "Response True 200 (Inr \<lparr>ApiResult.success = True, data = []\<rparr>)
               :: CoordRecord fetch_outcome"
  have n1: "\<not> refetched_growth ?g1" and n2: "\<not> refetched_coord ?g1 ?c1"
    and y1: "refetched_growth ?g2" and y2: "refetched_coord ?g2 ?c2"
    by (simp_all add: refetched_growth_def refetched_coord_def)
  from fetchData_isolation [of ?g1 ?st ?c1] n1 n2
  have "records (fetchData ?st ?g1 ?c1) = records ?st"
    and "coordRecords (fetchData ?st ?g1 ?c1) = coordRecords ?st"
    by blast+
  then have a: "records (fetchData ?st ?g1 ?c1) = sample_history"
    and b: "coordRecords (fetchData ?st ?g1 ?c1) = [sample_coord]"
    by simp_all
  from fetchData_isolation [of ?g2 ?st ?c2] y1 y2
  have "apiGet ?g2 = Inr \<lparr>ApiResult.success = True, data = records (fetchData ?st ?g2 ?c2)\<rparr>"
    and "apiGet ?c2 = Inr \<lparr>ApiResult.success = True, data = coordRecords (fetchData ?st ?g2 ?c2)\<rparr>"
    by blast+
  then have c: "records (fetchData ?st ?g2 ?c2) = [sample_pine]"
    and d: "coordRecords (fetchData ?st ?g2 ?c2) = []"
    by simp_all
  from n1 n2 y1 y2 a b c d show ?thesis
    by (simp only: simp_thms)
qed

section \<open>Submitting\<close>

lemma fetchData_form:
  "plotCode (fetchData st g c) = plotCode st \<and> treeNumber (fetchData st g c) = treeNumber st
   \<and> speciesCode (fetchData st g c) = speciesCode st \<and> rowMain (fetchData st g c) = rowMain st
   \<and> rowSub (fetchData st g c) = rowSub st \<and> dbhCm (fetchData st g c) = dbhCm st
   \<and> heightM (fetchData st g c) = heightM st
   \<and> AppState.status (fetchData st g c) = AppState.status st
   \<and> AppState.note_s (fetchData st g c) = AppState.note_s st
   \<and> AppState.recorder (fetchData st g c) = AppState.recorder st
   \<and> surveyDate (fetchData st g c) = surveyDate st
   \<and> searchTerm (fetchData st g c) = searchTerm st
   \<and> plotFilter (fetchData st g c) = plotFilter st
   \<and> statusFilter (fetchData st g c) = statusFilter st"
  by (simp add: fetchData_def showToast_def Let_def split: sum.split)

lemma form_cleared_clearForm: "form_cleared st (clearForm st)"
  by (simp add: form_cleared_def clearForm_def)

lemma form_cleared_fetchData: "form_cleared st st' \<Longrightarrow> form_cleared st (fetchData st' g c)"
  by (simp add: form_cleared_def fetchData_form)

lemma form_cleared_frame:
  "form_cleared st st' \<Longrightarrow> form_cleared (st\<lparr>isLoading := b\<rparr>) st'"
  "form_cleared st st' \<Longrightarrow> form_cleared st (st'\<lparr>isLoading := b\<rparr>)"
  "form_cleared st st' \<Longrightarrow> form_cleared (showToast m t st) st'"
  by (simp_all add: form_cleared_def showToast_def)

text \<open>
  Claim C10: the form-clearing step resets the plot code, tree number, species code, both
  rows, both measurements, the status and the note, and leaves the recorder, the survey date
  and the three filters as they were; the same holds for the state after a submission that
  passes validation and whose write is reported as sent.
\<close>

theorem submit_clears_form:
  "form_cleared st (clearForm st)
   \<and> (required_filled st \<longrightarrow> form_cleared st (handleSubmit st None growthFetch coordFetch))"
proof
  show "form_cleared st (clearForm st)"
    by (rule form_cleared_clearForm)
next
  show "required_filled st \<longrightarrow> form_cleared st (handleSubmit st None growthFetch coordFetch)"
  proof
    assume "required_filled st"
    then have "handleSubmit st None growthFetch coordFetch
        = (fetchData (clearForm (showToast (''Saved '' @ treeCodePreview (plotCode st) (speciesCode st) (treeNumber st)) Success (st\<lparr>isLoading := True\<rparr>))) growthFetch coordFetch)\<lparr>isLoading := False\<rparr>"
      by (simp add: handleSubmit_def required_filled_def apiPost_def Let_def)
    moreover have "form_cleared st ((fetchData (clearForm (showToast (''Saved '' @ treeCodePreview (plotCode st) (speciesCode st) (treeNumber st)) Success (st\<lparr>isLoading := True\<rparr>))) growthFetch coordFetch)\<lparr>isLoading := False\<rparr>)"
      by (intro form_cleared_frame(2) form_cleared_fetchData)
         (simp add: form_cleared_def clearForm_def showToast_def)
    ultimately show "form_cleared st (handleSubmit st None growthFetch coordFetch)"
      by simp
  qed
qed

theorem submit_clears_form_witness:
  "required_filled filled_form
   \<and> form_cleared filled_form (clearForm filled_form)
   \<and> form_cleared filled_form
        (handleSubmit filled_form None (Rejected ''Failed to fetch'') (Rejected ''Failed to fetch''))
   \<and> plotCode (handleSubmit filled_form None (Rejected ''Failed to fetch'')
        (Rejected ''Failed to fetch'')) = []
   \<and> AppState.recorder (handleSubmit filled_form None (Rejected ''Failed to fetch'')
        (Rejected ''Failed to fetch'')) = ''field team''
   \<and> searchTerm (handleSubmit filled_form None (Rejected ''Failed to fetch'')
        (Rejected ''Failed to fetch'')) = ''teak''"
proof -
  let ?st' = "handleSubmit filled_form None (Rejected ''Failed to fetch'') (Rejected ''Failed to fetch'')"
  have h: "required_filled filled_form"
    by (simp add: required_filled_def filled_form_def initial_state_def)
  from submit_clears_form [of filled_form "Rejected ''Failed to fetch''" "Rejected ''Failed to fetch''"] h
  have c1: "form_cleared filled_form (clearForm filled_form)"
    and c2: "form_cleared filled_form ?st'"
    by blast+
  from c2 have "plotCode ?st' = []" and "AppState.recorder ?st' = AppState.recorder filled_form"
    and "searchTerm ?st' = searchTerm filled_form"
    by (simp_all add: form_cleared_def)
  then have "plotCode ?st' = []" and "AppState.recorder ?st' = ''field team''"
    and "searchTerm ?st' = ''teak''"
    by (simp_all add: filled_form_def initial_state_def)
  with h c1 c2 show ?thesis
    by (simp only: simp_thms)
qed

section \<open>Join\<close>

lemma find_first_match:
  "P g \<Longrightarrow> \<forall>x \<in> set pre. \<not> P x \<Longrightarrow> find P (pre @ g # post) = Some g"
  by (induction pre) simp_all

text \<open>
  Claim C7: a spatial record whose tree code no growth record carries resolves to no growth
  record, and its marker gets the grey colour, the grey status class and the em dash, not
  the alive or dead ones; when growth records with that tree code exist, the first of them
  in load order is the one returned.
\<close>

theorem growthRec_join:
  "((\<forall>g \<in> set (records st). TreeRecord.tree_code g \<noteq> CoordRecord.tree_code r) \<longrightarrow>
      growthRec st r = None \<and> \<not> isAlive st r \<and> \<not> isDead st r
      \<and> color st r = ''#9ca3af'' \<and> status_class st r = ''text-gray-400''
      \<and> status_label st r = EM_DASH)
   \<and> (records st = pre @ g # post \<and> TreeRecord.tree_code g = CoordRecord.tree_code r
        \<and> (\<forall>x \<in> set pre. TreeRecord.tree_code x \<noteq> CoordRecord.tree_code r) \<longrightarrow>
      growthRec st r = Some g)"
proof (intro conjI impI)
  assume "\<forall>g \<in> set (records st). TreeRecord.tree_code g \<noteq> CoordRecord.tree_code r"
  then have none: "growthRec st r = None"
    by (simp add: growthRec_def find_None_iff)
  then show "growthRec st r = None" .
  from none show "\<not> isAlive st r" and "\<not> isDead st r"
    by (simp_all add: isAlive_def isDead_def)
  from none show "color st r = ''#9ca3af''"
    by (simp add: color_def isAlive_def isDead_def)
  from none show "status_class st r = ''text-gray-400''"
    by (simp add: status_class_def isAlive_def isDead_def)
  from none show "status_label st r = EM_DASH"
    by (simp add: status_label_def isAlive_def isDead_def)
next
  assume "records st = pre @ g # post \<and> TreeRecord.tree_code g = CoordRecord.tree_code r
        \<and> (\<forall>x \<in> set pre. TreeRecord.tree_code x \<noteq> CoordRecord.tree_code r)"
  then show "growthRec st r = Some g"
    by (simp add: growthRec_def find_first_match)
qed

theorem growthRec_join_witness:
  "growthRec (initial_state\<lparr>records := sample_history\<rparr>)
       (sample_coord\<lparr>CoordRecord.tree_code := ''P9Z99001''\<rparr>) = None
   \<and> color (initial_state\<lparr>records := sample_history\<rparr>)
       (sample_coord\<lparr>CoordRecord.tree_code := ''P9Z99001''\<rparr>) = ''#9ca3af''
   \<and> status_label (initial_state\<lparr>records := sample_history\<rparr>)
       (sample_coord\<lparr>CoordRecord.tree_code := ''P9Z99001''\<rparr>) = EM_DASH
   \<and> growthRec (initial_state\<lparr>records := sample_history\<rparr>) sample_coord
       = Some (sample_tree\<lparr>TreeRecord.status := Some Alive\<rparr>)"
proof -
  let ?st = "initial_state\<lparr>records := sample_history\<rparr>"
  let ?r = "sample_coord\<lparr>CoordRecord.tree_code := ''P9Z99001''\<rparr>"
  let ?g = "sample_tree\<lparr>TreeRecord.status := Some Alive\<rparr>"
  let ?post = "[sample_tree\<lparr>TreeRecord.status := Some Dead, survey_date := ''2025-05-01''\<rparr>]"
  have h1: "\<forall>g \<in> set (records ?st). TreeRecord.tree_code g \<noteq> CoordRecord.tree_code ?r"
    by (simp add: sample_history_def sample_pine_def sample_tree_def)
  have h2: "records ?st = [sample_pine] @ ?g # ?post
            \<and> TreeRecord.tree_code ?g = CoordRecord.tree_code sample_coord
            \<and> (\<forall>x \<in> set [sample_pine]. TreeRecord.tree_code x \<noteq> CoordRecord.tree_code sample_coord)"
    by (simp add: sample_history_def sample_pine_def sample_tree_def sample_coord_def)
  from growthRec_join [of ?st ?r] h1
  have "growthRec ?st ?r = None" and "color ?st ?r = ''#9ca3af''" and "status_label ?st ?r = EM_DASH"
    by blast+
  moreover from growthRec_join [of ?st sample_coord "[sample_pine]" ?g ?post] h2
  have "growthRec ?st sample_coord = Some ?g"
    by blast
  ultimately show ?thesis
    by (simp only: simp_thms)
qed

section \<open>Facts about double arithmetic\<close>

lemma round_half_even_err: "\<bar>of_int (round_half_even y) - y\<bar> \<le> 1 / 2"
proof -
  have "of_int \<lfloor>y\<rfloor> \<le> y" "y < of_int \<lfloor>y\<rfloor> + 1"
    by linarith+
  then show ?thesis
    by (auto simp: round_half_even_def Let_def)
qed

lemma round_half_even_of_int: "round_half_even (of_int m) = m"
  by (simp add: round_half_even_def)

lemma of_int_pow2: "0 \<le> n \<Longrightarrow> (of_int (2 ^ nat n) :: rat) = 2 powi n"
  by (simp add: power_int_def)

lemma exponent_bounds:
  assumes "0 < x"
  shows "2 powi exponent x \<le> x \<and> x < 2 powi (exponent x + 1)"
proof -
  obtain p q where pq: "quotient_of x = (p, q)"
    by (cases "quotient_of x")
  then have q: "0 < q" and x: "x = of_int p / of_int q"
    by (simp_all add: quotient_of_denom_pos quotient_of_div)
  with assms have p: "0 < p"
    by (simp add: zero_less_divide_iff)
  let ?bp = "bitlen p" and ?bq = "bitlen q"
  from p q have bp: "1 \<le> ?bp" and bq: "1 \<le> ?bq"
    by (simp_all add: bitlen_alt_def)
  from bitlen_bounds [OF p] have "(of_int (2 ^ nat (?bp - 1)) :: rat) \<le> of_int p"
    and "(of_int p :: rat) < of_int (2 ^ nat ?bp)"
    by (simp_all only: of_int_le_iff of_int_less_iff)
  with bp have p1: "2 powi (?bp - 1) \<le> (of_int p :: rat)" and p2: "(of_int p :: rat) < 2 powi ?bp"
    by (simp_all add: of_int_pow2 del: of_int_power)
  from bitlen_bounds [OF q] have "(of_int (2 ^ nat (?bq - 1)) :: rat) \<le> of_int q"
    and "(of_int q :: rat) < of_int (2 ^ nat ?bq)"
    by (simp_all only: of_int_le_iff of_int_less_iff)
  with bq have q1: "2 powi (?bq - 1) \<le> (of_int q :: rat)" and q2: "(of_int q :: rat) < 2 powi ?bq"
    by (simp_all add: of_int_pow2 del: of_int_power)
  have qpos: "(0::rat) < of_int q" using q by simp
  let ?k = "?bp - ?bq"
  have up: "x < 2 powi (?k + 1)"
  proof -
    have "of_int p < (2::rat) powi ?bp" by (rule p2)
    also have "\<dots> = 2 powi (?k + 1) * 2 powi (?bq - 1)"
      by (simp flip: power_int_add)
    also have "\<dots> \<le> 2 powi (?k + 1) * of_int q"
      using q1 by (intro mult_left_mono) simp_all
    finally show ?thesis
      using qpos by (simp add: x pos_divide_less_eq)
  qed
  have lo: "2 powi (?k - 1) \<le> x"
  proof -
    have "2 powi (?k - 1) * (of_int q :: rat) \<le> 2 powi (?k - 1) * 2 powi ?bq"
      using q2 by (intro mult_left_mono) simp_all
    also have "\<dots> = 2 powi (?bp - 1)"
      by (simp flip: power_int_add)
    also have "\<dots> \<le> of_int p" by (rule p1)
    finally show ?thesis
      using qpos by (simp add: x pos_le_divide_eq)
  qed
  have e: "exponent x = (if 2 powi ?k \<le> x then ?k else ?k - 1)"
    using assms pq by (simp add: exponent_def Let_def)
  show ?thesis
  proof (cases "2 powi ?k \<le> x")
    case True
    with e up show ?thesis by simp
  next
    case False
    with e lo show ?thesis by simp
  qed
qed

lemma exponent_eqI:
  assumes "2 powi e \<le> x" and "x < 2 powi (e + 1)"
  shows "exponent x = e"
proof -
  have "(0::rat) < 2 powi e" by simp
  with assms(1) have pos: "0 < x" by linarith
  from exponent_bounds [OF pos]
  have b1: "2 powi exponent x \<le> x" and b2: "x < 2 powi (exponent x + 1)"
    by simp_all
  have "\<not> exponent x < e"
  proof
    assume "exponent x < e"
    then have "exponent x + 1 \<le> e" by simp
    then have "(2::rat) powi (exponent x + 1) \<le> 2 powi e"
      by (intro power_int_increasing) simp_all
    with b2 assms(1) show False by linarith
  qed
  moreover have "\<not> e < exponent x"
  proof
    assume "e < exponent x"
    then have "e + 1 \<le> exponent x" by simp
    then have "(2::rat) powi (e + 1) \<le> 2 powi exponent x"
      by (intro power_int_increasing) simp_all
    with b1 assms(2) show False by linarith
  qed
  ultimately show ?thesis by linarith
qed

lemma round_to_double_err:
  assumes "0 < x"
  shows "\<bar>round_to_double x - x\<bar> \<le> 2 powi ulp_exponent x / 2"
proof -
  let ?u = "(2::rat) powi ulp_exponent x"
  have u: "0 < ?u" by simp
  have "\<bar>of_int (round_half_even (x / ?u)) - x / ?u\<bar> \<le> 1 / 2"
    by (rule round_half_even_err)
  then have "\<bar>of_int (round_half_even (x / ?u)) - x / ?u\<bar> * ?u \<le> 1 / 2 * ?u"
    using u by (intro mult_right_mono) simp_all
  moreover have "\<bar>of_int (round_half_even (x / ?u)) - x / ?u\<bar> * ?u
      = \<bar>(of_int (round_half_even (x / ?u)) - x / ?u) * ?u\<bar>"
    using u by (simp add: abs_mult)
  moreover have "(of_int (round_half_even (x / ?u)) - x / ?u) * ?u
      = of_int (round_half_even (x / ?u)) * ?u - x"
    using u by (simp add: left_diff_distrib)
  ultimately show ?thesis
    using assms by (simp add: round_to_double_def)
qed

lemma exponent_less:
  assumes "0 < x" and "x < 2 powi n"
  shows "exponent x < n"
proof (rule ccontr)
  assume "\<not> exponent x < n"
  then have "n \<le> exponent x" by simp
  then have "(2::rat) powi n \<le> 2 powi exponent x"
    by (intro power_int_increasing) simp_all
  with exponent_bounds [OF assms(1)] assms(2) show False by linarith
qed

lemma round_to_double_upper:
  assumes "0 \<le> x" and "x < 128"
  shows "round_to_double x \<le> x + 1 / 2 ^ 47"
proof (cases "x = 0")
  case True
  then show ?thesis by (simp add: round_to_double_def)
next
  case False
  with assms have pos: "0 < x" by simp
  have "x < 2 powi 7" using assms(2) by simp
  with pos have "exponent x < 7" by (rule exponent_less)
  then have "ulp_exponent x \<le> - 46"
    by (simp add: ulp_exponent_def)
  then have "(2::rat) powi ulp_exponent x \<le> 2 powi (- 46)"
    by (intro power_int_increasing) simp_all
  then have "(2::rat) powi ulp_exponent x / 2 \<le> 1 / 2 ^ 47"
    by (simp add: power_int_minus field_simps)
  with round_to_double_err [OF pos] show ?thesis
    by linarith
qed

lemma round_to_double_exact:
  assumes x: "x = of_int m * 2 powi k" and "0 < m" and "m < 2 ^ 53" and "- 1074 \<le> k"
  shows "round_to_double x = x"
proof -
  define u where "u = ulp_exponent x"
  have pos: "0 < x"
    using assms(1,2) by simp
  have "(of_int m :: rat) < of_int (2 ^ 53)"
    using assms(3) by (simp only: of_int_less_iff)
  then have "(of_int m :: rat) < 2 powi 53" by simp
  then have "of_int m * 2 powi k < (2::rat) powi 53 * 2 powi k"
    by (intro mult_strict_right_mono) simp_all
  then have "x < 2 powi (53 + k)"
    by (simp add: x power_int_add)
  with pos have "exponent x < 53 + k" by (rule exponent_less)
  with assms(4) have le: "u \<le> k"
    by (simp add: u_def ulp_exponent_def)
  define j where "j = nat (k - u)"
  have k: "k = u + int j"
    using le by (simp add: j_def)
  have pk: "(2::rat) powi k = 2 powi u * 2 ^ j"
    by (simp add: k power_int_add)
  have "x / 2 powi u = of_int (m * 2 ^ j)"
    by (simp add: x pk)
  then have "round_half_even (x / 2 powi u) = m * 2 ^ j"
    by (simp only: round_half_even_of_int)
  then have "round_to_double x = of_int (m * 2 ^ j) * 2 powi u"
    using pos by (simp add: round_to_double_def u_def)
  also have "\<dots> = of_int m * (2 powi u * 2 ^ j)"
    by simp
  finally show ?thesis
    by (simp add: x pk)
qed

lemma round_half_even_eqI:
  assumes "of_int z - 1 / 2 < y" and "y < of_int z + 1 / 2"
  shows "round_half_even y = z"
proof (cases "of_int z \<le> y")
  case True
  with assms(2) have "\<lfloor>y\<rfloor> = z"
    by (intro floor_unique) simp_all
  with assms(2) show ?thesis
    by (simp add: round_half_even_def)
next
  case False
  with assms(1) have "\<lfloor>y\<rfloor> = z - 1"
    by (intro floor_unique) simp_all
  with assms(1) False show ?thesis
    by (simp add: round_half_even_def)
qed

lemma round_to_double_eqI:
  assumes "2 powi e \<le> x" and "x < 2 powi (e + 1)" and "- 1022 \<le> e"
    and "of_int z - 1 / 2 < x / 2 powi (e - 52)" and "x / 2 powi (e - 52) < of_int z + 1 / 2"
  shows "round_to_double x = of_int z * 2 powi (e - 52)"
proof -
  have "(0::rat) < 2 powi e" by simp
  with assms(1) have "x \<noteq> 0" by linarith
  moreover have "exponent x = e"
    using assms(1,2) by (rule exponent_eqI)
  with assms(3) have "ulp_exponent x = e - 52"
    by (simp add: ulp_exponent_def)
  moreover have "round_half_even (x / 2 powi (e - 52)) = z"
    using assms(4,5) by (rule round_half_even_eqI)
  ultimately show ?thesis
    by (simp add: round_to_double_def)
qed


lemma round_half_even_nonneg: "0 \<le> y \<Longrightarrow> 0 \<le> round_half_even y"
  by (auto simp: round_half_even_def Let_def)

lemma round_to_double_nonneg: "0 \<le> x \<Longrightarrow> 0 \<le> round_to_double x"
  by (simp add: round_to_double_def round_half_even_nonneg)

lemma to_double_exact:
  assumes "x = of_int m * 2 powi k" and "0 < m" and "m < 2 ^ 53" and "- 1074 \<le> k"
    and "x < 2 ^ 1024"
  shows "to_double x = Num x"
  using round_to_double_exact [OF assms(1-4)] assms(5) by (simp add: to_double_def)

lemma to_double_0: "to_double 0 = Num 0"
  by (simp add: to_double_def round_to_double_def)

lemma to_double_small:
  assumes "0 \<le> x" and "x < 128"
  shows "\<exists>y. to_double x = Num y \<and> 0 \<le> y \<and> y \<le> x + 1 / 2 ^ 47"
proof -
  have up: "round_to_double x \<le> x + 1 / 2 ^ 47"
    using assms by (rule round_to_double_upper)
  have "x + 1 / 2 ^ 47 < 2 ^ 1024"
    using assms(2) by simp
  with up have "\<not> 2 ^ 1024 \<le> round_to_double x"
    by linarith
  then have "to_double x = Num (round_to_double x)"
    by (simp add: to_double_def)
  with up round_to_double_nonneg [OF assms(1)] show ?thesis
    by blast
qed

lemma to_double_of_int:
  assumes "0 \<le> n" and "n < 2 ^ 53"
  shows "to_double (of_int n) = Num (of_int n)"
proof (cases "n = 0")
  case True
  then show ?thesis by (simp add: to_double_0)
next
  case False
  have "(of_int n :: rat) < of_int (2 ^ 53)"
    using assms(2) by (simp only: of_int_less_iff)
  then have "(of_int n :: rat) < 2 ^ 1024"
    by simp
  with False assms show ?thesis
    by (intro to_double_exact [of _ n 0]) simp_all
qed

text \<open>
  One percentage: the rounded quotient times 100, rounded again, exceeds the exact
  percentage by less than \<open>2^-40\<close>; \<^verbatim>\<open>Math.round\<close> of it is an integer.
\<close>

lemma percentage_rounded:
  fixes a t :: nat
  assumes "a \<le> t" and "t \<noteq> 0"
  shows "\<exists>p :: rat. Math_round (js_mul (js_div a t) 100) = Num (of_int \<lfloor>p + 1 / 2\<rfloor>)
           \<and> 0 \<le> p \<and> p \<le> of_nat a / of_nat t * 100 + 1 / 2 ^ 40"
proof -
  let ?x = "(of_nat a :: rat) / of_nat t"
  have x0: "0 \<le> ?x" by simp
  have "(of_nat a :: rat) \<le> of_nat t"
    using assms(1) by (simp only: of_nat_le_iff)
  then have x1: "?x \<le> 1"
    using assms(2) by (simp add: divide_le_eq)
  then have "?x < 128" by simp
  with x0 obtain q where q: "to_double ?x = Num q" "0 \<le> q" "q \<le> ?x + 1 / 2 ^ 47"
    using to_double_small by blast
  have "q * 100 \<le> (?x + 1 / 2 ^ 47) * 100"
    using q(3) by (intro mult_right_mono) simp_all
  then have q100: "q * 100 \<le> ?x * 100 + 100 / 2 ^ 47"
    by (simp add: algebra_simps)
  have "?x * 100 \<le> 1 * 100"
    using x1 by (intro mult_right_mono) simp_all
  with q100 have "q * 100 < 128" by simp
  moreover have "0 \<le> q * 100" using q(2) by simp
  ultimately obtain p where p: "to_double (q * 100) = Num p" "0 \<le> p" "p \<le> q * 100 + 1 / 2 ^ 47"
    using to_double_small by blast
  have "Math_round (js_mul (js_div a t) 100) = Num (of_int \<lfloor>p + 1 / 2\<rfloor>)"
    using assms(2) q(1) p(1) by (simp add: js_div_def)
  moreover have "p \<le> ?x * 100 + 1 / 2 ^ 40"
    using p(3) q100 by simp
  ultimately show ?thesis
    using p(2) by blast
qed

section \<open>Aggregator: counts and percentages\<close>

lemma length_filter_disjoint:
  "(\<And>x. \<not> (P x \<and> Q x)) \<Longrightarrow> length (filter P xs) + length (filter Q xs) \<le> length xs"
  by (induction xs) auto

lemma stats_total: "total (stats st) = length (records st)"
  by (simp add: stats_def Let_def)

lemma stats_alive: "alive (stats st) = length (filter (\<lambda>r. TreeRecord.status r = Some Alive) (records st))"
  by (simp add: stats_def Let_def)

lemma stats_dead: "dead (stats st) = length (filter (\<lambda>r. TreeRecord.status r = Some Dead) (records st))"
  by (simp add: stats_def Let_def)

lemma stats_alivePct:
  "alivePct (stats st) =
     (if total (stats st) \<noteq> 0
      then Math_round (js_mul (js_div (alive (stats st)) (total (stats st))) 100) else Num 0)"
  by (simp add: stats_def Let_def)

lemma stats_deadPct:
  "deadPct (stats st) =
     (if total (stats st) \<noteq> 0
      then Math_round (js_mul (js_div (dead (stats st)) (total (stats st))) 100) else Num 0)"
  by (simp add: stats_def Let_def)

lemma alive_dead_le_total: "alive (stats st) + dead (stats st) \<le> total (stats st)"
  unfolding stats_total stats_alive stats_dead
  by (rule length_filter_disjoint) simp

lemma rounded_sum_le:
  fixes a d t :: nat and pa pd :: rat
  assumes "a + d \<le> t" and "t \<noteq> 0"
    and "0 \<le> pa" and "pa \<le> of_nat a / of_nat t * 100 + 1 / 2 ^ 40"
    and "0 \<le> pd" and "pd \<le> of_nat d / of_nat t * 100 + 1 / 2 ^ 40"
  shows "0 \<le> \<lfloor>pa + 1 / 2\<rfloor> + \<lfloor>pd + 1 / 2\<rfloor> \<and> \<lfloor>pa + 1 / 2\<rfloor> + \<lfloor>pd + 1 / 2\<rfloor> \<le> 101"
proof -
  let ?x = "(of_nat a :: rat) / of_nat t * 100" and ?y = "(of_nat d :: rat) / of_nat t * 100"
  have "(of_nat (a + d) :: rat) \<le> of_nat t"
    using assms(1) by (simp only: of_nat_le_iff)
  then have "(of_nat (a + d) :: rat) / of_nat t \<le> 1"
    using assms(2) by (simp add: divide_le_eq)
  then have "(of_nat (a + d) :: rat) / of_nat t * 100 \<le> 1 * 100"
    by (intro mult_right_mono) simp_all
  moreover have "?x + ?y = (of_nat (a + d) :: rat) / of_nat t * 100"
    by (simp add: add_divide_distrib)
  ultimately have xy: "?x + ?y \<le> 100"
    by linarith
  have fa: "(of_int \<lfloor>pa + 1 / 2\<rfloor> :: rat) \<le> pa + 1 / 2"
    and fd: "(of_int \<lfloor>pd + 1 / 2\<rfloor> :: rat) \<le> pd + 1 / 2"
    by (rule of_int_floor_le)+
  have "(of_int (\<lfloor>pa + 1 / 2\<rfloor> + \<lfloor>pd + 1 / 2\<rfloor>) :: rat)
          = of_int \<lfloor>pa + 1 / 2\<rfloor> + of_int \<lfloor>pd + 1 / 2\<rfloor>"
    by (rule of_int_add)
  also have "\<dots> \<le> pa + pd + 1"
    using fa fd by linarith
  also have "\<dots> \<le> 101 + 2 / 2 ^ 40"
    using assms(4,6) xy by linarith
  also have "\<dots> < of_int 102"
    by simp
  finally have "\<lfloor>pa + 1 / 2\<rfloor> + \<lfloor>pd + 1 / 2\<rfloor> < 102"
    by (simp only: of_int_less_iff)
  moreover have "0 \<le> \<lfloor>pa + 1 / 2\<rfloor>" and "0 \<le> \<lfloor>pd + 1 / 2\<rfloor>"
    using assms(3,5) by simp_all
  ultimately show ?thesis
    by linarith
qed

lemma eight_total: "total (stats (initial_state\<lparr>records := sample_eight\<rparr>)) = 8"
  by (simp add: stats_total sample_eight_def)

lemma eight_alive: "alive (stats (initial_state\<lparr>records := sample_eight\<rparr>)) = 1"
  by (simp add: stats_alive sample_eight_def sample_tree_def)

lemma eight_dead: "dead (stats (initial_state\<lparr>records := sample_eight\<rparr>)) = 7"
  by (simp add: stats_dead sample_eight_def sample_tree_def)

lemma one_eighth: "js_div 1 8 = Num (1 / 8)"
  using to_double_exact [of "1 / 8" 1 "- 3"] by (simp add: js_div_def power_int_minus)

lemma seven_eighths: "js_div 7 8 = Num (7 / 8)"
  using to_double_exact [of "7 / 8" 7 "- 3"] by (simp add: js_div_def power_int_minus)

lemma twelve_and_a_half: "js_mul (Num (1 / 8)) 100 = Num (25 / 2)"
  using to_double_exact [of "25 / 2" 25 "- 1"] by (simp add: power_int_minus)

lemma eighty_seven_and_a_half: "js_mul (Num (7 / 8)) 100 = Num (175 / 2)"
  using to_double_exact [of "175 / 2" 175 "- 1"] by (simp add: power_int_minus)

lemma pct_1_of_8: "Math_round (js_mul (js_div 1 8) 100) = Num 13"
proof -
  have "Math_round (js_mul (js_div 1 8) 100) = Math_round (Num (25 / 2))"
    by (simp only: one_eighth twelve_and_a_half)
  also have "\<dots> = Num 13"
    by simp
  finally show ?thesis .
qed

lemma pct_7_of_8: "Math_round (js_mul (js_div 7 8) 100) = Num 88"
proof -
  have "Math_round (js_mul (js_div 7 8) 100) = Math_round (Num (175 / 2))"
    by (simp only: seven_eighths eighty_seven_and_a_half)
  also have "\<dots> = Num 88"
    by simp
  finally show ?thesis .
qed

lemma eight_alivePct: "alivePct (stats (initial_state\<lparr>records := sample_eight\<rparr>)) = Num 13"
proof -
  have "alivePct (stats (initial_state\<lparr>records := sample_eight\<rparr>))
          = Math_round (js_mul (js_div 1 8) 100)"
    unfolding stats_alivePct eight_total eight_alive by simp
  then show ?thesis
    by (simp only: pct_1_of_8)
qed

lemma eight_deadPct: "deadPct (stats (initial_state\<lparr>records := sample_eight\<rparr>)) = Num 88"
proof -
  have "deadPct (stats (initial_state\<lparr>records := sample_eight\<rparr>))
          = Math_round (js_mul (js_div 7 8) 100)"
    unfolding stats_deadPct eight_total eight_dead by simp
  then show ?thesis
    by (simp only: pct_7_of_8)
qed

lemma thirteen_plus_eighty_eight: "js_add (Num 13) (Num 88) = Num 101"
proof -
  have "js_add (Num 13) (Num 88) = to_double (of_int 101)"
    by simp
  also have "\<dots> = Num (of_int 101)"
    by (rule to_double_of_int) simp_all
  finally show ?thesis
    by simp
qed

text \<open>
  Claim C2, as stated, fails: with one surviving and seven dead trees the two percentages
  are 12.5 and 87.5 (both exact in double precision), both are rounded up, and 13 + 88
  exceeds 100.
\<close>

theorem stats_percentages_exceed_100:
  "\<not> (alive (stats (initial_state\<lparr>records := sample_eight\<rparr>))
        + dead (stats (initial_state\<lparr>records := sample_eight\<rparr>))
          \<le> total (stats (initial_state\<lparr>records := sample_eight\<rparr>))
      \<and> js_le (js_add (alivePct (stats (initial_state\<lparr>records := sample_eight\<rparr>)))
                 (deadPct (stats (initial_state\<lparr>records := sample_eight\<rparr>)))) (Num 100))"
  unfolding eight_alivePct eight_deadPct thirteen_plus_eighty_eight
  by simp

text \<open>
  Claim C2, amended: the alive and dead counts together never exceed the total, and the
  two independently rounded percentages, computed in double precision, add up to at most
  101.
\<close>

theorem stats_percentages_bound:
  "alive (stats st) + dead (stats st) \<le> total (stats st)
   \<and> js_le (js_add (alivePct (stats st)) (deadPct (stats st))) (Num 101)"
proof (cases "total (stats st) = 0")
  case True
  then show ?thesis
    using alive_dead_le_total [of st]
    by (simp add: stats_alivePct stats_deadPct to_double_0)
next
  case False
  let ?a = "alive (stats st)" and ?d = "dead (stats st)" and ?t = "total (stats st)"
  have sum: "?a + ?d \<le> ?t"
    by (rule alive_dead_le_total)
  then have "?a \<le> ?t" and "?d \<le> ?t"
    by simp_all
  with False obtain pa pd :: rat
    where pa: "Math_round (js_mul (js_div ?a ?t) 100) = Num (of_int \<lfloor>pa + 1 / 2\<rfloor>)"
      "0 \<le> pa" "pa \<le> of_nat ?a / of_nat ?t * 100 + 1 / 2 ^ 40"
    and pd: "Math_round (js_mul (js_div ?d ?t) 100) = Num (of_int \<lfloor>pd + 1 / 2\<rfloor>)"
      "0 \<le> pd" "pd \<le> of_nat ?d / of_nat ?t * 100 + 1 / 2 ^ 40"
    using percentage_rounded [of ?a ?t] percentage_rounded [of ?d ?t] by blast
  let ?z = "\<lfloor>pa + 1 / 2\<rfloor> + \<lfloor>pd + 1 / 2\<rfloor>"
  from rounded_sum_le [OF sum False pa(2,3) pd(2,3)] have z: "0 \<le> ?z" "?z \<le> 101"
    by simp_all
  then have "?z < 2 ^ 53" by simp
  with z(1) have td: "to_double (of_int ?z) = Num (of_int ?z)"
    by (rule to_double_of_int)
  have ap: "alivePct (stats st) = Num (of_int \<lfloor>pa + 1 / 2\<rfloor>)"
    using False pa(1) by (simp only: stats_alivePct if_True simp_thms)
  have dp: "deadPct (stats st) = Num (of_int \<lfloor>pd + 1 / 2\<rfloor>)"
    using False pd(1) by (simp only: stats_deadPct if_True simp_thms)
  have "js_add (alivePct (stats st)) (deadPct (stats st))
          = to_double (of_int \<lfloor>pa + 1 / 2\<rfloor> + of_int \<lfloor>pd + 1 / 2\<rfloor>)"
    by (simp only: ap dp js_add.simps)
  also have "\<dots> = to_double (of_int ?z)"
    by (simp only: of_int_add)
  finally have "js_add (alivePct (stats st)) (deadPct (stats st)) = Num (of_int ?z)"
    by (simp only: td)
  moreover have "(of_int ?z :: rat) \<le> of_int 101"
    using z(2) by (simp only: of_int_le_iff)
  ultimately show ?thesis
    using sum by simp
qed

text \<open>
  Double precision matters for single percentages: 23 surviving trees of 40 are 57.5
  percent, but the quotient is rounded down, the product stays below 57.5, and the figure
  shown is 57 where exact arithmetic would give 58.
\<close>

lemma forty_total: "total (stats (initial_state\<lparr>records := sample_forty\<rparr>)) = 40"
  by (simp add: stats_total sample_forty_def)

lemma forty_alive: "alive (stats (initial_state\<lparr>records := sample_forty\<rparr>)) = 23"
  by (simp add: stats_alive sample_forty_def sample_tree_def)

lemma quotient_23_40: "js_div 23 40 = Num (5179139571476070 / 2 ^ 53)"
proof -
  have "round_to_double (23 / 40) = 5179139571476070 * 2 powi (- 1 - 52)"
    using round_to_double_eqI [of "- 1" "23 / 40" 5179139571476070]
    by (simp add: power_int_minus)
  then show ?thesis
    by (simp add: js_div_def to_double_def power_int_minus)
qed

lemma product_23_40: "js_mul (Num (5179139571476070 / 2 ^ 53)) 100 = Num (8092405580431359 / 2 ^ 47)"
proof -
  have "round_to_double (5179139571476070 / 2 ^ 53 * 100) = 8092405580431359 * 2 powi (5 - 52)"
    using round_to_double_eqI [of 5 "5179139571476070 / 2 ^ 53 * 100" 8092405580431359]
    by (simp add: power_int_minus)
  then show ?thesis
    by (simp add: to_double_def power_int_minus)
qed

lemma pct_23_of_40: "Math_round (js_mul (js_div 23 40) 100) = Num 57"
proof -
  have "Math_round (js_mul (js_div 23 40) 100) = Math_round (Num (8092405580431359 / 2 ^ 47))"
    by (simp only: quotient_23_40 product_23_40)
  also have "\<dots> = Num 57"
    by (simp add: floor_eq_iff)
  finally show ?thesis .
qed

lemma forty_alivePct:
  "alivePct (stats (initial_state\<lparr>records := sample_forty\<rparr>)) = Num 57
   \<and> \<lfloor>(23 :: rat) / 40 * 100 + 1 / 2\<rfloor> = 58"
proof -
  have "alivePct (stats (initial_state\<lparr>records := sample_forty\<rparr>))
          = Math_round (js_mul (js_div 23 40) 100)"
    unfolding stats_alivePct forty_total forty_alive by simp
  then have "alivePct (stats (initial_state\<lparr>records := sample_forty\<rparr>)) = Num 57"
    by (simp only: pct_23_of_40)
  moreover have "\<lfloor>(23 :: rat) / 40 * 100 + 1 / 2\<rfloor> = 58"
    by (simp add: floor_eq_iff)
  ultimately show ?thesis
    by simp
qed

lemma floor_half: "\<lfloor>(1::rat) / 2\<rfloor> = 0"
  by (simp add: floor_eq_iff)

lemma coordinateCoveragePct_no_records:
  "records st = [] \<Longrightarrow>
     coordinateCoveragePct st = (if coordRecords st = [] then Num 0 else Infinity)"
  by (simp add: coordinateCoveragePct_def stats_total js_div_def floor_half)

text \<open>
  Claim C1 asks for a coverage of 0 whenever there are no growth records. The code
  evaluated on no growth records and one spatial record: the quotient is \<^verbatim>\<open>Infinity\<close>, which
  is truthy, so the \<^verbatim>\<open>|| 0\<close> fallback does not apply and the figure shown is
  \<^verbatim>\<open>Infinity\<close>, not 0.
\<close>

theorem coverage_infinite_without_growth_records:
  "total (stats (initial_state\<lparr>coordRecords := [sample_coord]\<rparr>)) = 0
   \<and> coordinateCoveragePct (initial_state\<lparr>coordRecords := [sample_coord]\<rparr>) = Infinity
   \<and> coordinateCoveragePct (initial_state\<lparr>coordRecords := [sample_coord]\<rparr>) \<noteq> Num 0"
  by (simp add: coordinateCoveragePct_no_records stats_total initial_state_def)

section \<open>Aggregator: species breakdown\<close>

lemma put_own_keys:
  "map fst (put_own k v obj) = (if k \<in> set (map fst obj) then map fst obj else map fst obj @ [k])"
  by (induction obj) force+

lemma map_of_put_own: "map_of (put_own k v obj) = (map_of obj)(k \<mapsto> v)"
  by (induction obj) auto

lemma encounter_order_snoc:
  "encounter_order (ks @ [k]) = (if k \<in> set ks then encounter_order ks else encounter_order ks @ [k])"
  by (simp add: encounter_order_def)

lemma set_encounter_order: "set (encounter_order ks) = set ks"
  by (simp add: encounter_order_def)

lemma distinct_encounter_order: "distinct (encounter_order ks)"
  by (simp add: encounter_order_def)

lemma proto_in_prototype_names: "''__proto__'' \<in> set Object_prototype_names"
  by (simp add: Object_prototype_names_def)

text \<open>
  Counting names none of which is inherited: the object has one property per name, in
  first-encounter order, holding the number of occurrences.
\<close>

lemma counted:
  assumes "set ks \<inter> set Object_prototype_names = {}"
  shows "map fst (foldl count_key [] ks) = encounter_order ks
         \<and> (\<forall>k. map_of (foldl count_key [] ks) k
                = (if k \<in> set ks then Some (Count (count_list ks k)) else None))"
  using assms
proof (induction ks rule: rev_induct)
  case Nil
  show ?case by (simp add: encounter_order_def)
next
  case (snoc x ks)
  let ?obj = "foldl count_key [] ks"
  from snoc.prems have ks: "set ks \<inter> set Object_prototype_names = {}"
    and x: "x \<notin> set Object_prototype_names"
    by auto
  from snoc.IH [OF ks] have keys: "map fst ?obj = encounter_order ks"
    and vals: "\<And>k. map_of ?obj k = (if k \<in> set ks then Some (Count (count_list ks k)) else None)"
    by simp_all
  from x proto_in_prototype_names have np: "x \<noteq> ''__proto__''"
    by auto
  have inc: "incremented ?obj x = Count (count_list ks x + 1)"
    using x by (simp add: incremented_def vals count_list_0_iff)
  have step: "foldl count_key [] (ks @ [x]) = put_own x (Count (count_list ks x + 1)) ?obj"
    using np by (simp add: count_key_def set_property_def inc)
  have "map fst (foldl count_key [] (ks @ [x])) = encounter_order (ks @ [x])"
    unfolding step
    by (simp add: put_own_keys keys encounter_order_snoc set_encounter_order)
  moreover have "map_of (foldl count_key [] (ks @ [x])) k
      = (if k \<in> set (ks @ [x]) then Some (Count (count_list (ks @ [x]) k)) else None)" for k
    unfolding step
    by (simp add: map_of_put_own vals)
  ultimately show ?case
    by blast
qed

lemma set_Object_keys: "set (Object_keys obj) = set (map fst obj)"
  by (auto simp: Object_keys_def)

lemma distinct_Object_keys: "distinct (map fst obj) \<Longrightarrow> distinct (Object_keys obj)"
  by (auto simp: Object_keys_def)

lemma Object_keys_no_index:
  "\<forall>k \<in> set (map fst obj). \<not> is_array_index k \<Longrightarrow> Object_keys obj = map fst obj"
  by (simp add: Object_keys_def filter_empty_conv filter_id_conv)

lemma subseq_take: "subseq (take n xs) xs"
proof (induction xs arbitrary: n)
  case Nil
  show ?case by simp
next
  case (Cons x xs)
  then show ?case by (cases n) simp_all
qed

lemma stats_speciesData:
  "speciesData (stats st)
     = slice_0_10 (sort_desc (entries_of
         (foldl count_key [] (map TreeRecord.species_name (records st)))))"
  by (simp add: stats_def Let_def foldl_map)

lemma array_length_slice: "array_length (slice_0_10 a) \<le> 10"
  by (cases a) simp_all

lemma entry_names_entries_of: "map entry_name (entries_of obj) = Object_keys obj"
  by (simp add: entries_of_def comp_def)

lemma sort_key_count_sorted:
  "sorted_wrt (\<lambda>a b. count_of (entry_value b) \<le> count_of (entry_value a))
     (sort_key (\<lambda>e. - int (count_of (entry_value e))) xs)"
proof -
  have "sorted (map (\<lambda>e. - int (count_of (entry_value e)))
          (sort_key (\<lambda>e. - int (count_of (entry_value e))) xs))"
    by (rule sorted_sort_key)
  then show ?thesis
    by (simp add: sorted_map)
qed

lemma sorted_wrt_take_any: "sorted_wrt R xs \<Longrightarrow> sorted_wrt R (take n xs)"
proof -
  assume "sorted_wrt R xs"
  then have "sorted_wrt R (take n xs @ drop n xs)" by simp
  then show ?thesis unfolding sorted_wrt_append by blast
qed

lemma sort_key_count_stable:
  assumes "\<forall>e \<in> set xs. is_number (entry_value e)"
  shows "filter (\<lambda>e. entry_value e = Count k) (sort_key (\<lambda>e. - int (count_of (entry_value e))) xs)
           = filter (\<lambda>e. entry_value e = Count k) xs"
proof -
  let ?f = "\<lambda>e. - int (count_of (entry_value e))"
  have eq: "(entry_value e = Count k) = (?f e = - int k)" if "is_number (entry_value e)" for e
    using that by (cases "entry_value e") simp_all
  have "filter (\<lambda>e. entry_value e = Count k) (sort_key ?f xs)
          = filter (\<lambda>e. ?f e = - int k) (sort_key ?f xs)"
    using assms by (intro filter_cong refl eq) simp
  also have "\<dots> = filter (\<lambda>e. ?f e = - int k) xs"
    by (rule sort_key_stable)
  also have "\<dots> = filter (\<lambda>e. entry_value e = Count k) xs"
    using assms by (intro filter_cong refl eq [symmetric]) simp
  finally show ?thesis .
qed

lemma distinct_map_sort_key:
  "distinct (map g xs) \<Longrightarrow> distinct (map g (sort_key f xs))"
  by (simp add: distinct_map inj_on_def)

lemma distinct_map_take: "distinct (map f xs) \<Longrightarrow> distinct (map f (take n xs))"
  by (simp add: take_map [symmetric] del: take_map)

lemma not_index_Teak: "\<not> is_array_index ''Teak''"
  by (rule not_index_if_not_digit [of "CHR ''T''"]) simp_all

lemma not_index_Pine: "\<not> is_array_index ''Pine''"
  by (rule not_index_if_not_digit [of "CHR ''P''"]) simp_all

lemma not_index_Oak: "\<not> is_array_index ''Oak''"
  by (rule not_index_if_not_digit [of "CHR ''O''"]) simp_all

lemma not_index_constructor: "\<not> is_array_index ''constructor''"
  by (rule not_index_if_not_digit [of "CHR ''c''"]) simp_all

lemma index_1: "is_array_index ''1''"
  by (simp add: is_array_index_def decimal_value_def digit_val_def toString.simps digit_chars)

lemma index_2: "is_array_index ''2''"
  by (simp add: is_array_index_def decimal_value_def digit_val_def toString.simps digit_chars)

lemma decimal_value_1_2: "decimal_value ''1'' = 1" "decimal_value ''2'' = 2"
  by (simp_all add: decimal_value_def digit_val_def)

lemma with_species_names:
  "map TreeRecord.species_name (records (with_species names)) = names"
  by (simp add: with_species_def comp_def)

lemma speciesData_with_species:
  "speciesData (stats (with_species names))
     = slice_0_10 (sort_desc (entries_of (foldl count_key [] names)))"
  by (simp only: stats_speciesData with_species_names)

lemma with_species_all:
  "(\<forall>r \<in> set (records (with_species names)). P (TreeRecord.species_name r)) = (\<forall>n \<in> set names. P n)"
  by (simp add: with_species_def)

lemma plain_2_1: "''2'' \<notin> set Object_prototype_names" "''1'' \<notin> set Object_prototype_names"
  by (simp_all add: Object_prototype_names_def)

lemma plain_names:
  "''Teak'' \<notin> set Object_prototype_names" "''Pine'' \<notin> set Object_prototype_names"
  "''Oak'' \<notin> set Object_prototype_names"
  by (simp_all add: Object_prototype_names_def)

lemma inherited_constructor: "''constructor'' \<in> set Object_prototype_names"
  by (simp add: Object_prototype_names_def)

text \<open>
  Claim C6, as stated, fails: species names that are array indices are listed in numeric
  order by \<^verbatim>\<open>Object.keys\<close>, whatever the order in which the records introduce them. Two
  records named \<open>2\<close> and \<open>1\<close> tie with one occurrence each and come out as \<open>1\<close>, \<open>2\<close>.
\<close>

theorem speciesData_index_names_first:
  "speciesData (stats (with_species [''2'', ''1'']))
     = InOrder [\<lparr>entry_name = ''1'', entry_value = Count 1\<rparr>,
                \<lparr>entry_name = ''2'', entry_value = Count 1\<rparr>]
   \<and> encounter_order (map TreeRecord.species_name (records (with_species [''2'', ''1''])))
       = [''2'', ''1'']
   \<and> \<not> subseq
         (map entry_name
            (filter (\<lambda>e. entry_value e = Count 1)
               [\<lparr>entry_name = ''1'', entry_value = Count 1\<rparr>,
                \<lparr>entry_name = ''2'', entry_value = Count 1\<rparr>]))
         (encounter_order (map TreeRecord.species_name (records (with_species [''2'', ''1'']))))"
proof -
  have counts: "foldl count_key [] [''2'', ''1''] = [(''2'', Count 1), (''1'', Count 1)]"
    by (simp add: count_key_def set_property_def incremented_def plain_2_1)
  have keys: "Object_keys [(''2'', Count 1), (''1'', Count 1)] = [''1'', ''2'']"
    by (simp add: Object_keys_def index_1 index_2 decimal_value_1_2)
  have sd: "speciesData (stats (with_species [''2'', ''1'']))
     = InOrder [\<lparr>entry_name = ''1'', entry_value = Count 1\<rparr>,
                \<lparr>entry_name = ''2'', entry_value = Count 1\<rparr>]"
    unfolding speciesData_with_species counts entries_of_def keys
    by (simp add: own_value_def sort_desc_def)
  have eo: "encounter_order (map TreeRecord.species_name (records (with_species [''2'', ''1''])))
       = [''2'', ''1'']"
    by (simp add: with_species_names encounter_order_def)
  show ?thesis
    unfolding sd eo by simp
qed

text \<open>
  What the model does with inherited names: \<open>constructor\<close>, met twice, holds a string, the
  comparator is no longer consistent and the order is the implementation's; \<open>__proto__\<close>
  never becomes a property and is missing from the breakdown.
\<close>

lemma speciesData_inherited_names:
  "speciesData (stats (with_species [''Teak'', ''constructor'', ''constructor'']))
     = SomeOrder 2 [\<lparr>entry_name = ''Teak'', entry_value = Count 1\<rparr>,
                    \<lparr>entry_name = ''constructor'', entry_value = Joined ''constructor'' 2\<rparr>]
   \<and> speciesData (stats (with_species [''__proto__'', ''Teak'']))
     = InOrder [\<lparr>entry_name = ''Teak'', entry_value = Count 1\<rparr>]"
proof -
  have c1: "foldl count_key [] [''Teak'', ''constructor'', ''constructor'']
              = [(''Teak'', Count 1), (''constructor'', Joined ''constructor'' 2)]"
    by (simp add: count_key_def set_property_def incremented_def plain_names
        inherited_constructor)
  have k1: "Object_keys [(''Teak'', Count 1), (''constructor'', Joined ''constructor'' 2)]
              = [''Teak'', ''constructor'']"
    by (simp add: Object_keys_def not_index_Teak not_index_constructor)
  have a: "speciesData (stats (with_species [''Teak'', ''constructor'', ''constructor'']))
     = SomeOrder 2 [\<lparr>entry_name = ''Teak'', entry_value = Count 1\<rparr>,
                    \<lparr>entry_name = ''constructor'', entry_value = Joined ''constructor'' 2\<rparr>]"
    unfolding speciesData_with_species c1 entries_of_def k1
    by (simp add: own_value_def sort_desc_def)
  have c2: "foldl count_key [] [''__proto__'', ''Teak''] = [(''Teak'', Count 1)]"
    by (simp add: count_key_def set_property_def incremented_def plain_names)
  have k2: "Object_keys [(''Teak'', Count 1)] = [''Teak'']"
    by (simp add: Object_keys_def not_index_Teak)
  have b: "speciesData (stats (with_species [''__proto__'', ''Teak'']))
     = InOrder [\<lparr>entry_name = ''Teak'', entry_value = Count 1\<rparr>]"
    unfolding speciesData_with_species c2 entries_of_def k2
    by (simp add: own_value_def sort_desc_def)
  from a b show ?thesis
    by (simp only: simp_thms)
qed

text \<open>
  Claim C6, amended: the species breakdown has at most 10 entries. When no species name is
  the name of a member of \<^verbatim>\<open>Object.prototype\<close>, its entries are known one by one: the names
  are distinct, each count is the number of records with that species name, and the counts
  are non-increasing; and when, in addition, no species name is an array index, the entries
  that share a count appear in the order in which their names are first met in the input.
\<close>

theorem speciesData_properties:
  "array_length (speciesData (stats st)) \<le> 10
   \<and> ((\<forall>r \<in> set (records st). TreeRecord.species_name r \<notin> set Object_prototype_names) \<longrightarrow>
        (\<exists>sd. speciesData (stats st) = InOrder sd
           \<and> distinct (map entry_name sd)
           \<and> (\<forall>e \<in> set sd.
                 entry_value e
                   = Count (length (filter (\<lambda>r. TreeRecord.species_name r = entry_name e)
                              (records st))))
           \<and> sorted_wrt (\<lambda>a b. count_of (entry_value b) \<le> count_of (entry_value a)) sd
           \<and> ((\<forall>r \<in> set (records st). \<not> is_array_index (TreeRecord.species_name r)) \<longrightarrow>
                (\<forall>k. subseq (map entry_name (filter (\<lambda>e. entry_value e = Count k) sd))
                       (encounter_order (map TreeRecord.species_name (records st)))))))"
proof (intro conjI impI)
  show "array_length (speciesData (stats st)) \<le> 10"
    unfolding stats_speciesData by (rule array_length_slice)
next
  let ?names = "map TreeRecord.species_name (records st)"
  let ?obj = "foldl count_key [] ?names"
  let ?es = "entries_of ?obj"
  let ?f = "\<lambda>e. - int (count_of (entry_value e))"
  let ?sd = "take 10 (sort_key ?f ?es)"
  assume "\<forall>r \<in> set (records st). TreeRecord.species_name r \<notin> set Object_prototype_names"
  then have plain: "set ?names \<inter> set Object_prototype_names = {}"
    by auto
  from counted [OF plain] have keys: "map fst ?obj = encounter_order ?names"
    and vals: "\<And>k. map_of ?obj k
                 = (if k \<in> set ?names then Some (Count (count_list ?names k)) else None)"
    by simp_all
  have es_val: "entry_value e = Count (count_list ?names (entry_name e))" if "e \<in> set ?es" for e
  proof -
    from that obtain k where k: "k \<in> set (Object_keys ?obj)"
      and e: "e = \<lparr>entry_name = k, entry_value = own_value ?obj k\<rparr>"
      by (auto simp: entries_of_def)
    from k have "k \<in> set ?names"
      by (simp only: set_Object_keys keys set_encounter_order)
    then show ?thesis
      by (simp add: e own_value_def vals)
  qed
  then have numbers: "\<forall>e \<in> set ?es. is_number (entry_value e)"
    by simp
  then have sorted: "sort_desc ?es = InOrder (sort_key ?f ?es)"
    by (simp add: sort_desc_def list_all_iff)
  have sd: "speciesData (stats st) = InOrder ?sd"
    by (simp only: stats_speciesData sorted slice_0_10.simps)
  have in_es: "e \<in> set ?es" if "e \<in> set ?sd" for e
    using that by (auto dest: in_set_takeD)
  have "distinct (Object_keys ?obj)"
    by (intro distinct_Object_keys) (simp add: keys distinct_encounter_order)
  then have "distinct (map entry_name ?es)"
    by (simp only: entry_names_entries_of)
  then have dst: "distinct (map entry_name ?sd)"
    by (intro distinct_map_take distinct_map_sort_key)
  have val: "\<forall>e \<in> set ?sd. entry_value e
      = Count (length (filter (\<lambda>r. TreeRecord.species_name r = entry_name e) (records st)))"
  proof
    fix e assume "e \<in> set ?sd"
    then have "entry_value e = Count (count_list ?names (entry_name e))"
      by (intro es_val in_es)
    also have "count_list ?names (entry_name e)
        = length (filter (\<lambda>r. TreeRecord.species_name r = entry_name e) (records st))"
      by (simp add: count_list_eq_length_filter filter_map comp_def eq_commute)
    finally show "entry_value e
      = Count (length (filter (\<lambda>r. TreeRecord.species_name r = entry_name e) (records st)))" .
  qed
  have srt: "sorted_wrt (\<lambda>a b. count_of (entry_value b) \<le> count_of (entry_value a)) ?sd"
    by (intro sorted_wrt_take_any sort_key_count_sorted)
  have ties: "\<forall>k. subseq (map entry_name (filter (\<lambda>e. entry_value e = Count k) ?sd))
                (encounter_order ?names)"
    if noidx: "\<forall>r \<in> set (records st). \<not> is_array_index (TreeRecord.species_name r)"
  proof
    fix k
    have "\<forall>k \<in> set (map fst ?obj). \<not> is_array_index k"
      using noidx by (auto simp: keys set_encounter_order)
    then have "Object_keys ?obj = map fst ?obj"
      by (rule Object_keys_no_index)
    then have names: "map entry_name ?es = encounter_order ?names"
      by (simp only: entry_names_entries_of keys)
    have "subseq (filter (\<lambda>e. entry_value e = Count k) ?sd)
            (filter (\<lambda>e. entry_value e = Count k) (sort_key ?f ?es))"
      by (intro subseq_filter subseq_take)
    also have "filter (\<lambda>e. entry_value e = Count k) (sort_key ?f ?es)
                 = filter (\<lambda>e. entry_value e = Count k) ?es"
      using numbers by (rule sort_key_count_stable)
    finally have "subseq (filter (\<lambda>e. entry_value e = Count k) ?sd) ?es"
      using subseq_filter_left subseq_order.trans by blast
    then have "subseq (map entry_name (filter (\<lambda>e. entry_value e = Count k) ?sd))
                 (map entry_name ?es)"
      by (rule subseq_map)
    then show "subseq (map entry_name (filter (\<lambda>e. entry_value e = Count k) ?sd))
                 (encounter_order ?names)"
      by (simp only: names)
  qed
  from sd dst val srt ties
  show "\<exists>sd. speciesData (stats st) = InOrder sd
           \<and> distinct (map entry_name sd)
           \<and> (\<forall>e \<in> set sd.
                 entry_value e
                   = Count (length (filter (\<lambda>r. TreeRecord.species_name r = entry_name e)
                              (records st))))
           \<and> sorted_wrt (\<lambda>a b. count_of (entry_value b) \<le> count_of (entry_value a)) sd
           \<and> ((\<forall>r \<in> set (records st). \<not> is_array_index (TreeRecord.species_name r)) \<longrightarrow>
                (\<forall>k. subseq (map entry_name (filter (\<lambda>e. entry_value e = Count k) sd))
                       (encounter_order (map TreeRecord.species_name (records st)))))"
    by blast
qed

text \<open>
  Four records of three species: the name met twice leads, and the two names met once keep
  their order of first appearance.
\<close>

theorem speciesData_properties_witness:
  "''Pine'' \<notin> set Object_prototype_names \<and> ''Teak'' \<notin> set Object_prototype_names
   \<and> ''Oak'' \<notin> set Object_prototype_names
   \<and> \<not> is_array_index ''Pine'' \<and> \<not> is_array_index ''Teak'' \<and> \<not> is_array_index ''Oak''
   \<and> speciesData (stats (with_species [''Pine'', ''Teak'', ''Oak'', ''Teak'']))
       = InOrder [\<lparr>entry_name = ''Teak'', entry_value = Count 2\<rparr>,
                  \<lparr>entry_name = ''Pine'', entry_value = Count 1\<rparr>,
                  \<lparr>entry_name = ''Oak'', entry_value = Count 1\<rparr>]
   \<and> array_length (speciesData (stats (with_species [''Pine'', ''Teak'', ''Oak'', ''Teak''])))
       \<le> 10
   \<and> subseq
        (map entry_name
           (filter (\<lambda>e. entry_value e = Count 1)
              [\<lparr>entry_name = ''Teak'', entry_value = Count 2\<rparr>,
               \<lparr>entry_name = ''Pine'', entry_value = Count 1\<rparr>,
               \<lparr>entry_name = ''Oak'', entry_value = Count 1\<rparr>]))
        (encounter_order
           (map TreeRecord.species_name
              (records (with_species [''Pine'', ''Teak'', ''Oak'', ''Teak'']))))"
proof -
  let ?st = "with_species [''Pine'', ''Teak'', ''Oak'', ''Teak'']"
  let ?sd = "[\<lparr>entry_name = ''Teak'', entry_value = Count 2\<rparr>,
              \<lparr>entry_name = ''Pine'', entry_value = Count 1\<rparr>,
              \<lparr>entry_name = ''Oak'', entry_value = Count 1\<rparr>]"
  have h1: "\<forall>r \<in> set (records ?st). TreeRecord.species_name r \<notin> set Object_prototype_names"
    unfolding with_species_all [where P = "\<lambda>n. n \<notin> set Object_prototype_names"]
    by (simp add: plain_names)
  have h2: "\<forall>r \<in> set (records ?st). \<not> is_array_index (TreeRecord.species_name r)"
    unfolding with_species_all [where P = "\<lambda>n. \<not> is_array_index n"]
    by (simp add: not_index_Teak not_index_Pine not_index_Oak)
  have counts: "foldl count_key [] [''Pine'', ''Teak'', ''Oak'', ''Teak'']
                  = [(''Pine'', Count 1), (''Teak'', Count 2), (''Oak'', Count 1)]"
    by (simp add: count_key_def set_property_def incremented_def plain_names)
  have keys: "Object_keys [(''Pine'', Count 1), (''Teak'', Count 2), (''Oak'', Count 1)]
                = [''Pine'', ''Teak'', ''Oak'']"
    by (simp add: Object_keys_def not_index_Teak not_index_Pine not_index_Oak)
  have sd: "speciesData (stats ?st) = InOrder ?sd"
    unfolding speciesData_with_species counts entries_of_def keys
    by (simp add: own_value_def sort_desc_def)
  from speciesData_properties [of ?st] h1 h2
  obtain sd' where "speciesData (stats ?st) = InOrder sd'"
    and "subseq (map entry_name (filter (\<lambda>e. entry_value e = Count 1) sd'))
           (encounter_order (map TreeRecord.species_name (records ?st)))"
    by blast
  with sd have ties: "subseq (map entry_name (filter (\<lambda>e. entry_value e = Count 1) ?sd))
           (encounter_order (map TreeRecord.species_name (records ?st)))"
    by simp
  from speciesData_properties [of ?st] have len: "array_length (speciesData (stats ?st)) \<le> 10"
    by blast
  from plain_names not_index_Pine not_index_Teak not_index_Oak sd len ties show ?thesis
    by (simp only: simp_thms)
qed

end
